theory Spec2Isabelle
  imports Complex_Main "HOL-Library.Log_Nat" "HOL-Library.AList"
begin

section \<open>The dice roll analysis system of script.js\<close>

text \<open>
  The class \<open>DiceAnalysisSystem\<close> keeps one field that the analytics read, the array
  \<open>this.games\<close>, and a constant \<open>maxMemoryWindow = 20\<close>. Every analytics method is a
  function of that array, so each method is modelled as a function of the list of games.
  The DOM, the canvas and local storage are not modelled.
\<close>

subsection \<open>Round records\<close>

datatype State = LOW | MID | HIGH | EXTREME | UNKNOWN

datatype Classification = KECIL | BESAR

datatype Direction = naik | turun | stabil

record Trend =
  direction :: Direction
  diff :: int

text \<open>
  The object built in \<open>handleFormSubmit\<close>. The fields \<open>id\<close> and \<open>timestamp\<close> are left
  out: no analytics method reads them. The states, the trend and the classification are
  stored fields, read back later without being recomputed from the rolls.
\<close>

record game =
  roll1 :: int
  roll2 :: int
  state1 :: State
  state2 :: State
  trend :: Trend
  classification :: Classification

subsection \<open>State detection\<close>

definition getState :: "int \<Rightarrow> State" where
  "getState roll =
     (if roll \<ge> 6 \<and> roll \<le> 18 then LOW
      else if roll \<ge> 19 \<and> roll \<le> 31 then MID
      else if roll \<ge> 32 \<and> roll \<le> 43 then HIGH
      else if roll \<ge> 44 \<and> roll \<le> 54 then EXTREME
      else UNKNOWN)"

definition getClassification :: "int \<Rightarrow> Classification" where
  "getClassification roll = (if roll \<le> 31 then KECIL else BESAR)"

subsection \<open>Numeric trend\<close>

definition calculateTrend :: "int \<Rightarrow> int \<Rightarrow> Trend" where
  "calculateTrend r1 r2 =
     (let d = r2 - r1 in
      if d > 0 then \<lparr>direction = naik, diff = d\<rparr>
      else if d < 0 then \<lparr>direction = turun, diff = d\<rparr>
      else \<lparr>direction = stabil, diff = d\<rparr>)"

subsection \<open>Round construction\<close>

text \<open>The object literal of \<open>handleFormSubmit\<close>, for two integer rolls.\<close>

definition newGame :: "int \<Rightarrow> int \<Rightarrow> game" where
  "newGame r1 r2 =
     \<lparr>roll1 = r1, roll2 = r2, state1 = getState r1, state2 = getState r2,
      trend = calculateTrend r1 r2, classification = getClassification r2\<rparr>"

text \<open>
  A round as the data model requires it: both rolls are integers in \<open>[6,54]\<close> and
  every other field is the one \<open>newGame\<close> derives from them. The submit handler of the
  form is not modelled. Its range check compares the result of \<open>parseInt\<close>, and \<open>NaN\<close>
  passes every comparison, so the form can also store a round whose state is \<open>UNKNOWN\<close>.
  Logs with an \<open>UNKNOWN\<close> stored state, which are not valid, stand for them in the
  properties of the transition matrix and of the prediction.
\<close>

definition validGame :: "game \<Rightarrow> bool" where
  "validGame g \<longleftrightarrow>
     6 \<le> roll1 g \<and> roll1 g \<le> 54 \<and> 6 \<le> roll2 g \<and> roll2 g \<le> 54 \<and>
     g = newGame (roll1 g) (roll2 g)"

definition validLog :: "game list \<Rightarrow> bool" where
  "validLog games \<longleftrightarrow> list_all validGame games"

subsection \<open>Recent window and trend analysis\<close>

definition maxMemoryWindow :: nat where
  "maxMemoryWindow = 20"

text \<open>
  \<open>this.games.slice(-count)\<close>: the last \<open>count\<close> elements, the whole array when it is
  shorter; \<open>slice(-0)\<close> is \<open>slice(0)\<close>, the whole array.
\<close>

definition getRecentGames :: "nat \<Rightarrow> game list \<Rightarrow> game list" where
  "getRecentGames count games =
     (if count = 0 then games else drop (length games - count) games)"

record TrendAnalysis =
  upCount :: nat
  downCount :: nat
  stableCount :: nat

definition trendStep :: "TrendAnalysis \<Rightarrow> game \<Rightarrow> TrendAnalysis" where
  "trendStep t g =
     (if direction (trend g) = naik then t\<lparr>upCount := upCount t + 1\<rparr>
      else if direction (trend g) = turun then t\<lparr>downCount := downCount t + 1\<rparr>
      else t\<lparr>stableCount := stableCount t + 1\<rparr>)"

definition analyzeTrendDirection :: "game list \<Rightarrow> TrendAnalysis option" where
  "analyzeTrendDirection games =
     (if length games = 0 then None
      else Some (foldl trendStep \<lparr>upCount = 0, downCount = 0, stableCount = 0\<rparr>
                   (getRecentGames maxMemoryWindow games)))"

text \<open>
  The three labels end in an arrow outside ASCII (U+2191, U+2193, U+2192), written here
  as the three bytes of its UTF-8 encoding.
\<close>

definition label_naik :: string where
  "label_naik = ''Naik '' @ [CHR 0xE2, CHR 0x86, CHR 0x91]"

definition label_turun :: string where
  "label_turun = ''Turun '' @ [CHR 0xE2, CHR 0x86, CHR 0x93]"

definition label_stabil :: string where
  "label_stabil = ''Stabil '' @ [CHR 0xE2, CHR 0x86, CHR 0x92]"

definition getTrendDominant :: "game list \<Rightarrow> string" where
  "getTrendDominant games =
     (case analyzeTrendDirection games of
        None \<Rightarrow> ''-''
      | Some trendAnalysis \<Rightarrow>
          if upCount trendAnalysis > downCount trendAnalysis
             \<and> upCount trendAnalysis > stableCount trendAnalysis then label_naik
          else if downCount trendAnalysis > upCount trendAnalysis
             \<and> downCount trendAnalysis > stableCount trendAnalysis then label_turun
          else label_stabil)"

subsection \<open>JavaScript numbers\<close>

text \<open>
  A JavaScript number is an IEEE 754 double. The finite ones are modelled as the
  rationals they denote, and every arithmetic operation rounds its exact result to the
  nearest double, ties to the even significand (\<open>fl\<close>). The significand has 53 bits;
  the exponent is not bounded here: on the logs this program can hold (fewer than
  \<open>2^32\<close> rounds, the limit of a JavaScript array) every intermediate value lies far
  inside the exponent range. The two zeros are identified; no divisor of the program
  can be a negative zero.
\<close>

definition pow2 :: "int \<Rightarrow> rat" where
  "pow2 e = (if 0 \<le> e then 2 ^ nat e else 1 / 2 ^ nat (- e))"

text \<open>For \<open>x > 0\<close>, the exponent \<open>e\<close> with \<open>2^e \<le> x < 2^(e+1)\<close>.\<close>

definition ilog2 :: "rat \<Rightarrow> int" where
  "ilog2 x = (if 1 \<le> x then bitlen \<lfloor>x\<rfloor> - 1 else - bitlen (\<lceil>1 / x\<rceil> - 1))"

text \<open>Rounding to the nearest integer, a tie going to the even one.\<close>

definition rne :: "rat \<Rightarrow> int" where
  "rne y =
     (let f = \<lfloor>y\<rfloor>; d = y - of_int f in
      if d < 1 / 2 then f
      else if 1 / 2 < d then f + 1
      else if even f then f else f + 1)"

definition fl :: "rat \<Rightarrow> rat" where
  "fl x =
     (if x = 0 then 0
      else let a = \<bar>x\<bar>; u = pow2 (ilog2 a - 52); m = of_int (rne (a / u)) * u in
           if x < 0 then - m else m)"

datatype jsnum = Fin rat | PInf | NInf | NaN

text \<open>A decimal literal of the source, such as \<open>0.6\<close>, is the double nearest to it.\<close>

definition lit :: "rat \<Rightarrow> jsnum" where
  "lit x = Fin (fl x)"

fun jneg :: "jsnum \<Rightarrow> jsnum" where
  "jneg (Fin a) = Fin (- a)"
| "jneg PInf = NInf"
| "jneg NInf = PInf"
| "jneg NaN = NaN"

fun jadd :: "jsnum \<Rightarrow> jsnum \<Rightarrow> jsnum" where
  "jadd (Fin a) (Fin b) = Fin (fl (a + b))"
| "jadd NaN _ = NaN"
| "jadd _ NaN = NaN"
| "jadd PInf NInf = NaN"
| "jadd NInf PInf = NaN"
| "jadd PInf _ = PInf"
| "jadd _ PInf = PInf"
| "jadd NInf _ = NInf"
| "jadd _ NInf = NInf"

definition jsub :: "jsnum \<Rightarrow> jsnum \<Rightarrow> jsnum" where
  "jsub a b = jadd a (jneg b)"

fun jmul :: "jsnum \<Rightarrow> jsnum \<Rightarrow> jsnum" where
  "jmul (Fin a) (Fin b) = Fin (fl (a * b))"
| "jmul NaN _ = NaN"
| "jmul _ NaN = NaN"
| "jmul PInf (Fin b) = (if b = 0 then NaN else if 0 < b then PInf else NInf)"
| "jmul NInf (Fin b) = (if b = 0 then NaN else if 0 < b then NInf else PInf)"
| "jmul (Fin a) PInf = (if a = 0 then NaN else if 0 < a then PInf else NInf)"
| "jmul (Fin a) NInf = (if a = 0 then NaN else if 0 < a then NInf else PInf)"
| "jmul PInf PInf = PInf"
| "jmul NInf NInf = PInf"
| "jmul PInf NInf = NInf"
| "jmul NInf PInf = NInf"

fun jdiv :: "jsnum \<Rightarrow> jsnum \<Rightarrow> jsnum" where
  "jdiv (Fin a) (Fin b) =
     (if b = 0 then (if a = 0 then NaN else if 0 < a then PInf else NInf)
      else Fin (fl (a / b)))"
| "jdiv NaN _ = NaN"
| "jdiv _ NaN = NaN"
| "jdiv (Fin a) PInf = Fin 0"
| "jdiv (Fin a) NInf = Fin 0"
| "jdiv PInf (Fin b) = (if 0 \<le> b then PInf else NInf)"
| "jdiv NInf (Fin b) = (if 0 \<le> b then NInf else PInf)"
| "jdiv PInf PInf = NaN"
| "jdiv PInf NInf = NaN"
| "jdiv NInf PInf = NaN"
| "jdiv NInf NInf = NaN"

text \<open>\<open>Math.round\<close>: the nearest integer, a tie going up.\<close>

fun jround :: "jsnum \<Rightarrow> jsnum" where
  "jround (Fin a) = Fin (of_int \<lfloor>a + 1 / 2\<rfloor>)"
| "jround x = x"

fun jabs :: "jsnum \<Rightarrow> jsnum" where
  "jabs (Fin a) = Fin \<bar>a\<bar>"
| "jabs NInf = PInf"
| "jabs x = x"

fun jless :: "jsnum \<Rightarrow> jsnum \<Rightarrow> bool" where
  "jless (Fin a) (Fin b) = (a < b)"
| "jless NaN _ = False"
| "jless _ NaN = False"
| "jless NInf NInf = False"
| "jless NInf _ = True"
| "jless _ NInf = False"
| "jless PInf _ = False"
| "jless _ PInf = True"

text \<open>\<open>x || 0\<close> on a number: \<open>NaN\<close> and zero are falsy.\<close>

definition orZero :: "jsnum \<Rightarrow> jsnum" where
  "orZero x = (if x = NaN \<or> x = Fin 0 then Fin 0 else x)"

text \<open>
  An integer counter: it starts at 0 and is only ever incremented or summed, so it
  stays far below \<open>2^53\<close> and double arithmetic on it is exact. Incrementing a property
  that does not exist (\<open>undefined++\<close>) stores \<open>NaN\<close>, and \<open>NaN\<close> stays \<open>NaN\<close>.
\<close>

datatype count = Count nat | CountNaN

fun incr :: "count option \<Rightarrow> count" where
  "incr None = CountNaN"
| "incr (Some (Count n)) = Count (n + 1)"
| "incr (Some CountNaN) = CountNaN"

fun count_add :: "count \<Rightarrow> count \<Rightarrow> count" where
  "count_add (Count a) (Count b) = Count (a + b)"
| "count_add _ _ = CountNaN"

fun num :: "count \<Rightarrow> jsnum" where
  "num (Count n) = Fin (of_nat n)"
| "num CountNaN = NaN"

text \<open>
  An object literal used as a lookup table is an association list in insertion order:
  \<open>map_of\<close> reads a property, \<open>AList.update\<close> assigns one (in place when the key
  exists, at the end otherwise), \<open>Object.values\<close> is \<open>map snd\<close>.
\<close>

type_synonym ('k, 'v) obj = "('k \<times> 'v) list"

datatype error = TypeError

subsection \<open>State transitions\<close>

type_synonym matrix = "(State, (State, count) obj) obj"

definition states :: "State list" where
  "states = [LOW, MID, HIGH, EXTREME]"

definition emptyMatrix :: matrix where
  "emptyMatrix =
     foldl (\<lambda>matrix from.
              AList.update from
                (foldl (\<lambda>row to. AList.update to (Count 0) row) [] states) matrix)
       [] states"

text \<open>
  \<open>matrix[fromState][toState]++\<close>. Reading a property of \<open>undefined\<close> throws, so a row
  that is not there is a \<open>TypeError\<close>; a column that is not there is created, as \<open>NaN\<close>.
\<close>

definition incrCell :: "matrix \<Rightarrow> State \<Rightarrow> State \<Rightarrow> error + matrix" where
  "incrCell matrix fromState toState =
     (case map_of matrix fromState of
        None \<Rightarrow> Inl TypeError
      | Some row \<Rightarrow>
          Inr (AList.update fromState
                 (AList.update toState (incr (map_of row toState)) row) matrix))"

function matrixLoop :: "game list \<Rightarrow> nat \<Rightarrow> matrix \<Rightarrow> error + matrix" where
  "matrixLoop games i matrix =
     (if i < length games then
        (case incrCell matrix (state2 (games ! (i - 1))) (state1 (games ! i)) of
           Inl e \<Rightarrow> Inl e
         | Inr matrix' \<Rightarrow> matrixLoop games (i + 1) matrix')
      else Inr matrix)"
  by pat_completeness auto
termination
  by (relation "measure (\<lambda>(games, i, matrix). length games - i)") auto

definition buildTransitionMatrix :: "game list \<Rightarrow> error + matrix option" where
  "buildTransitionMatrix games =
     (if length games < 2 then Inr None
      else case matrixLoop games 1 emptyMatrix of
             Inl e \<Rightarrow> Inl e
           | Inr matrix \<Rightarrow> Inr (Some matrix))"

definition percentOf :: "count \<Rightarrow> count \<Rightarrow> jsnum" where
  "percentOf c rowTotal = jround (jmul (jdiv (num c) (num rowTotal)) (Fin 100))"

definition getStateTransitionProbability ::
  "game list \<Rightarrow> State \<Rightarrow> error + (State, jsnum) obj option" where
  "getStateTransitionProbability games fromState =
     (case buildTransitionMatrix games of
        Inl e \<Rightarrow> Inl e
      | Inr None \<Rightarrow> Inr None
      | Inr (Some matrix) \<Rightarrow>
          (case map_of matrix fromState of
             None \<Rightarrow> Inl TypeError
           | Some transitions \<Rightarrow>
               let total = foldl count_add (Count 0) (map snd transitions) in
               if total = Count 0 then Inr None
               else Inr (Some (map (\<lambda>(toState, c). (toState, percentOf c total))
                                 transitions))))"

subsection \<open>Classification frequency, state dominance, last state\<close>

definition getClassificationFrequency :: "game list \<Rightarrow> (Classification, nat) obj" where
  "getClassificationFrequency games =
     (if length games = 0 then [(KECIL, 0), (BESAR, 0)]
      else let (kecilCount, besarCount) =
                 foldl (\<lambda>(kecilCount, besarCount) g.
                          if classification g = KECIL then (kecilCount + 1, besarCount)
                          else (kecilCount, besarCount + 1))
                   (0, 0) (getRecentGames maxMemoryWindow games)
           in [(KECIL, kecilCount), (BESAR, besarCount)])"

definition getStateDominance :: "game list \<Rightarrow> (State, count) obj" where
  "getStateDominance games =
     (if length games = 0 then []
      else foldl (\<lambda>stateCounts g.
                    AList.update (state2 g) (incr (map_of stateCounts (state2 g)))
                      stateCounts)
             [(LOW, Count 0), (MID, Count 0), (HIGH, Count 0), (EXTREME, Count 0)]
             (getRecentGames maxMemoryWindow games))"

definition getLastState :: "game list \<Rightarrow> State option" where
  "getLastState games =
     (if length games = 0 then None
      else Some (state2 (games ! (length games - 1))))"


subsection \<open>Prediction\<close>



text \<open>
  \<open>this.games.reduce((sum, g) => sum + g.roll2, 0) / this.games.length\<close>. The sum of
  the integer rolls is exact; the division rounds.
\<close>

definition averageRoll2 :: "game list \<Rightarrow> jsnum" where
  "averageRoll2 games =
     jdiv (Fin (of_int (foldl (\<lambda>sum g. sum + roll2 g) 0 games)))
          (Fin (of_nat (length games)))"

text \<open>A property read in an arithmetic context: a missing one is \<open>undefined\<close>, that is \<open>NaN\<close>.\<close>

definition propNum :: "(State, count) obj \<Rightarrow> State \<Rightarrow> jsnum" where
  "propNum ob k = (case map_of ob k of None \<Rightarrow> NaN | Some c \<Rightarrow> num c)"

text \<open>\<open>stateTransitionProb[k] || 0\<close>: a missing property is falsy.\<close>

definition propOrZero :: "(State, jsnum) obj \<Rightarrow> State \<Rightarrow> jsnum" where
  "propOrZero ob k = (case map_of ob k of None \<Rightarrow> Fin 0 | Some x \<Rightarrow> orZero x)"

text \<open>
  The four components of the hybrid scoring, each taking and returning the pair
  \<open>(kecilScore, besarScore)\<close>.
\<close>

definition trendComponent :: "TrendAnalysis \<Rightarrow> jsnum \<times> jsnum \<Rightarrow> jsnum \<times> jsnum" where
  "trendComponent trendAnalysis = (\<lambda>(kecilScore, besarScore).
     let trendWeight = lit (25 / 100) in
     if downCount trendAnalysis > upCount trendAnalysis
     then (jadd kecilScore (jmul trendWeight (lit (6 / 10))), besarScore)
     else (kecilScore, jadd besarScore (jmul trendWeight (lit (6 / 10)))))"

definition stateComponent :: "(State, count) obj \<Rightarrow> jsnum \<times> jsnum \<Rightarrow> jsnum \<times> jsnum" where
  "stateComponent stateDom = (\<lambda>(kecilScore, besarScore).
     let stateWeight = lit (30 / 100);
         totalStateCount = num (foldl count_add (Count 0) (map snd stateDom));
         lowMidDominance =
           orZero (jdiv (jadd (propNum stateDom LOW) (propNum stateDom MID)) totalStateCount);
         highExtremeDominance =
           orZero (jdiv (jadd (propNum stateDom HIGH) (propNum stateDom EXTREME)) totalStateCount)
     in (jadd kecilScore (jmul stateWeight lowMidDominance),
         jadd besarScore (jmul stateWeight highExtremeDominance)))"

definition transitionComponent ::
  "(State, jsnum) obj option \<Rightarrow> jsnum \<times> jsnum \<Rightarrow> jsnum \<times> jsnum" where
  "transitionComponent transProb = (\<lambda>(kecilScore, besarScore).
     let transitionWeight = lit (25 / 100) in
     case transProb of
       None \<Rightarrow> (kecilScore, besarScore)
     | Some p \<Rightarrow>
         let lowMidTransitionProb =
               orZero (jdiv (jadd (propOrZero p LOW) (propOrZero p MID)) (Fin 100));
             highExtremeTransitionProb =
               orZero (jdiv (jadd (propOrZero p HIGH) (propOrZero p EXTREME)) (Fin 100))
         in (jadd kecilScore (jmul transitionWeight lowMidTransitionProb),
             jadd besarScore (jmul transitionWeight highExtremeTransitionProb)))"

definition centerComponent :: "jsnum \<Rightarrow> jsnum \<times> jsnum \<Rightarrow> jsnum \<times> jsnum" where
  "centerComponent avg = (\<lambda>(kecilScore, besarScore).
     let centerWeight = lit (20 / 100);
         CENTER = Fin 30;
         distanceFromCenter = jabs (jsub avg CENTER);
         maxDistance = Fin 24
     in if jless avg CENTER
        then (jadd kecilScore
                (jmul centerWeight (jsub (Fin 1) (jdiv distanceFromCenter maxDistance))),
              besarScore)
        else (kecilScore,
              jadd besarScore
                (jmul centerWeight (jsub (Fin 1) (jdiv distanceFromCenter maxDistance)))))"

definition hybridScores ::
  "TrendAnalysis \<Rightarrow> (State, count) obj \<Rightarrow> (State, jsnum) obj option \<Rightarrow> jsnum
     \<Rightarrow> jsnum \<times> jsnum" where
  "hybridScores trendAnalysis stateDom transProb avg =
     centerComponent avg
       (transitionComponent transProb
          (stateComponent stateDom
             (trendComponent trendAnalysis (Fin 0, Fin 0))))"

text \<open>
  Everything \<open>predictNextOutcome\<close> computes before the scoring. A call that throws
  leaves the method at once. Past the length check the log is not empty, so
  \<open>trendAnalysis\<close> and \<open>lastState\<close> are never \<open>null\<close>; the two \<open>None\<close> branches stand for the
  \<open>TypeError\<close> the source would raise on them.
\<close>

definition predictionInputs ::
  "game list \<Rightarrow> error + (TrendAnalysis \<times> (State, count) obj \<times> State
                            \<times> (State, jsnum) obj option \<times> jsnum)" where
  "predictionInputs games =
     (case analyzeTrendDirection games of
        None \<Rightarrow> Inl TypeError
      | Some trendAnalysis \<Rightarrow>
          (case getLastState games of
             None \<Rightarrow> Inl TypeError
           | Some lastSt \<Rightarrow>
               (case getStateTransitionProbability games lastSt of
                  Inl e \<Rightarrow> Inl e
                | Inr transProb \<Rightarrow>
                    Inr (trendAnalysis, getStateDominance games, lastSt, transProb,
                         averageRoll2 games))))"

text \<open>The normalisation divisor \<open>totalScore = kecilScore + besarScore\<close>.\<close>

definition totalScore :: "game list \<Rightarrow> error + jsnum" where
  "totalScore games =
     (case predictionInputs games of
        Inl e \<Rightarrow> Inl e
      | Inr (trendAnalysis, stateDom, lastSt, transProb, avg) \<Rightarrow>
          (let (kecilScore, besarScore) = hybridScores trendAnalysis stateDom transProb avg
           in Inr (jadd kecilScore besarScore)))"



subsection \<open>Notions used to state the properties\<close>

text \<open>Every stored state of every round is one of the four states of the matrix.\<close>

definition knownStates :: "game list \<Rightarrow> bool" where
  "knownStates games \<longleftrightarrow>
     list_all (\<lambda>g. state1 g \<in> set states \<and> state2 g \<in> set states) games"

text \<open>
  The number of consecutive pairs \<open>(i - 1, i)\<close> of the whole log with
  \<open>round(i - 1).state2 = A\<close> and \<open>round(i).state1 = B\<close>.
\<close>

definition transitionCount :: "game list \<Rightarrow> State \<Rightarrow> State \<Rightarrow> nat" where
  "transitionCount games A B =
     length (filter (\<lambda>i. state2 (games ! (i - 1)) = A \<and> state1 (games ! i) = B)
               [1..<length games])"

text \<open>The cell \<open>matrix[A][B]\<close>, \<open>None\<close> when the row or the column is not there.\<close>

definition cell :: "matrix \<Rightarrow> State \<Rightarrow> State \<Rightarrow> count option" where
  "cell m A B = (case map_of m A of None \<Rightarrow> None | Some row \<Rightarrow> map_of row B)"

text \<open>The last \<open>n\<close> rounds of a log, in their original order.\<close>

definition lastRounds :: "nat \<Rightarrow> game list \<Rightarrow> game list" where
  "lastRounds n games = rev (take n (rev games))"

text \<open>The number of transitions of the whole log that leave state \<open>A\<close> for one of the four states.\<close>

definition rowTotal :: "game list \<Rightarrow> State \<Rightarrow> nat" where
  "rowTotal games A = sum_list (map (transitionCount games A) states)"

subsection \<open>Example logs\<close>

text \<open>Five valid rounds.\<close>

definition fiveLog :: "game list" where
  "fiveLog = [newGame 10 20, newGame 30 12, newGame 44 44, newGame 18 19, newGame 54 6]"

text \<open>Four valid rounds whose three transitions leave LOW for LOW, MID and HIGH.\<close>

definition thirdsLog :: "game list" where
  "thirdsLog = [newGame 10 10, newGame 10 10, newGame 20 10, newGame 35 10]"

text \<open>
  Forty-one valid rounds whose forty transitions all leave LOW, 23 of them for LOW and
  17 for MID.
\<close>

definition tieLog :: "game list" where
  "tieLog = newGame 10 10 # (replicate 23 (newGame 10 10) @ replicate 17 (newGame 20 10))"

section \<open>Properties\<close>

subsection \<open>Classifier\<close>

text \<open>
  C7: for every integer \<open>r\<close>, \<open>getState r\<close> is \<open>LOW\<close> exactly on \<open>[6,18]\<close>, \<open>MID\<close> exactly
  on \<open>[19,31]\<close>, \<open>HIGH\<close> exactly on \<open>[32,43]\<close>, \<open>EXTREME\<close> exactly on \<open>[44,54]\<close>, and
  \<open>UNKNOWN\<close> exactly outside \<open>[6,54]\<close>. The four bands are contiguous and disjoint, so
  they partition \<open>[6,54]\<close>.
\<close>

theorem getState_bands:
  "(getState r = LOW) = (6 \<le> r \<and> r \<le> 18) \<and>
   (getState r = MID) = (19 \<le> r \<and> r \<le> 31) \<and>
   (getState r = HIGH) = (32 \<le> r \<and> r \<le> 43) \<and>
   (getState r = EXTREME) = (44 \<le> r \<and> r \<le> 54) \<and>
   (getState r = UNKNOWN) = (r < 6 \<or> 54 < r)"
  unfolding getState_def by (simp; arith)

text \<open>
  C8, as stated, asks for a roll in \<open>[6,54]\<close> on which the KECIL/BESAR split and the
  grouping of the states into LOW-or-MID and HIGH-or-EXTREME disagree. There is none.
\<close>

theorem binary_split_disagreement_refuted:
  "\<not> (\<exists>r::int. 6 \<le> r \<and> r \<le> 54 \<and>
         (getClassification r = KECIL) \<noteq> (getState r = LOW \<or> getState r = MID))"
  by (auto simp add: getClassification_def getState_def)

text \<open>
  C8, amended: \<open>getClassification r\<close> is \<open>KECIL\<close> exactly when \<open>r \<le> 31\<close> and \<open>BESAR\<close>
  exactly when \<open>r \<ge> 32\<close>; 32 is also the lower bound of \<open>HIGH\<close>, so on \<open>[6,54]\<close> the rolls
  classified \<open>KECIL\<close> are exactly those in state \<open>LOW\<close> or \<open>MID\<close> and the rolls
  classified \<open>BESAR\<close> are exactly those in state \<open>HIGH\<close> or \<open>EXTREME\<close>.
\<close>

theorem getClassification_split:
  "(getClassification r = KECIL) = (r \<le> 31) \<and>
   (getClassification r = BESAR) = (32 \<le> r) \<and>
   getClassification 31 = KECIL \<and>
   getClassification 32 = BESAR \<and>
   getState 32 = HIGH \<and>
   (6 \<le> r \<and> r \<le> 54 \<and> getClassification r = KECIL) = (getState r = LOW \<or> getState r = MID) \<and>
   (6 \<le> r \<and> r \<le> 54 \<and> getClassification r = BESAR)
     = (getState r = HIGH \<or> getState r = EXTREME)"
  by (auto simp add: getClassification_def getState_def)

subsection \<open>The transition matrix\<close>

declare matrixLoop.simps [simp del]

lemma emptyMatrix_eq:
  "emptyMatrix =
     [(LOW, [(LOW, Count 0), (MID, Count 0), (HIGH, Count 0), (EXTREME, Count 0)]),
      (MID, [(LOW, Count 0), (MID, Count 0), (HIGH, Count 0), (EXTREME, Count 0)]),
      (HIGH, [(LOW, Count 0), (MID, Count 0), (HIGH, Count 0), (EXTREME, Count 0)]),
      (EXTREME, [(LOW, Count 0), (MID, Count 0), (HIGH, Count 0), (EXTREME, Count 0)])]"
  by (simp add: emptyMatrix_def states_def)

lemma error_is_TypeError: "(e::error) = TypeError"
  by (cases e) simp

lemma map_of_Some_key: "map_of m k = Some v \<Longrightarrow> k \<in> fst ` set m"
  by (metis map_of_eq_None_iff option.simps(3))

lemma incrCell_Inl: "(\<exists>e. incrCell m from to = Inl e) = (from \<notin> fst ` set m)"
  by (auto simp add: incrCell_def map_of_eq_None_iff split: option.splits dest: map_of_Some_key)

lemma incrCell_keys: "incrCell m from to = Inr m' \<Longrightarrow> map fst m' = map fst m"
  by (auto simp add: incrCell_def AList.update_keys split: option.splits dest: map_of_Some_key)

lemma incrCell_cell:
  "incrCell m from to = Inr m' \<Longrightarrow>
   cell m' A B = (if A = from \<and> B = to then Some (incr (cell m A B)) else cell m A B)"
  by (auto simp add: incrCell_def cell_def AList.update_conv' split: option.splits if_splits)

lemma incrCell_row_keys:
  "incrCell m from to = Inr m' \<Longrightarrow> map_of m A = Some row \<Longrightarrow>
   \<exists>row'. map_of m' A = Some row' \<and>
      map fst row' = (if A = from \<and> to \<notin> fst ` set row then map fst row @ [to] else map fst row)"
  by (auto simp add: incrCell_def AList.update_conv' AList.update_keys split: option.splits)
    (metis fst_conv image_eqI)

lemma matrixLoop_keys:
  "matrixLoop games i m = Inr m' \<Longrightarrow> map fst m' = map fst m"
proof (induction games i m rule: matrixLoop.induct)
  case (1 games i m)
  show ?case
  proof (cases "i < length games")
    case True
    with "1.prems" obtain m1 where
      s: "incrCell m (state2 (games ! (i - 1))) (state1 (games ! i)) = Inr m1"
      and r: "matrixLoop games (i + 1) m1 = Inr m'"
      by (subst (asm) matrixLoop.simps) (auto split: sum.splits)
    from "1.IH" [OF True s r] incrCell_keys [OF s] show ?thesis by simp
  next
    case False
    with "1.prems" show ?thesis by (subst (asm) matrixLoop.simps) simp
  qed
qed

lemma matrixLoop_count:
  "matrixLoop games i m = Inr m' \<Longrightarrow> cell m A B = Some (Count c) \<Longrightarrow>
   cell m' A B = Some (Count (c + length (filter (\<lambda>j. state2 (games ! (j - 1)) = A \<and> state1 (games ! j) = B) [i..<length games])))"
proof (induction games i m arbitrary: c rule: matrixLoop.induct)
  case (1 games i m)
  show ?case
  proof (cases "i < length games")
    case True
    with "1.prems" obtain m1 where
      s: "incrCell m (state2 (games ! (i - 1))) (state1 (games ! i)) = Inr m1"
      and r: "matrixLoop games (i + 1) m1 = Inr m'"
      by (subst (asm) matrixLoop.simps) (auto split: sum.splits)
    have c1: "cell m1 A B = Some (Count (c + (if state2 (games ! (i - 1)) = A \<and> state1 (games ! i) = B then 1 else 0)))"
      using incrCell_cell [OF s, of A B] "1.prems"(2) by auto
    from "1.IH" [OF True s r c1] True show ?thesis
      by (simp add: upt_conv_Cons)
  next
    case False
    with "1.prems" show ?thesis by (subst (asm) matrixLoop.simps) simp
  qed
qed

lemma matrixLoop_ok:
  "\<forall>j. i \<le> j \<and> j < length games \<longrightarrow> state2 (games ! (j - 1)) \<in> fst ` set m \<Longrightarrow>
   \<exists>m'. matrixLoop games i m = Inr m'"
proof (induction games i m rule: matrixLoop.induct)
  case (1 games i m)
  show ?case
  proof (cases "i < length games")
    case True
    with "1.prems" have "state2 (games ! (i - 1)) \<in> fst ` set m" by simp
    then obtain m1 where
      s: "incrCell m (state2 (games ! (i - 1))) (state1 (games ! i)) = Inr m1"
      using incrCell_Inl [of m "state2 (games ! (i - 1))" "state1 (games ! i)"]
      by (cases "incrCell m (state2 (games ! (i - 1))) (state1 (games ! i))") auto
    have "fst ` set m1 = fst ` set m"
      using incrCell_keys [OF s] by (metis set_map)
    with "1.prems" have "\<forall>j. i + 1 \<le> j \<and> j < length games \<longrightarrow> state2 (games ! (j - 1)) \<in> fst ` set m1"
      by simp
    from "1.IH" [OF True s this] obtain m' where "matrixLoop games (i + 1) m1 = Inr m'" ..
    with True s show ?thesis by (subst matrixLoop.simps) simp
  next
    case False
    then show ?thesis by (subst matrixLoop.simps) simp
  qed
qed

lemma matrixLoop_fails:
  "i \<le> j \<Longrightarrow> j < length games \<Longrightarrow> state2 (games ! (j - 1)) \<notin> fst ` set m \<Longrightarrow>
   matrixLoop games i m = Inl TypeError"
proof (induction games i m rule: matrixLoop.induct)
  case (1 games i m)
  from "1.prems" have True: "i < length games" by simp
  show ?case
  proof (cases "incrCell m (state2 (games ! (i - 1))) (state1 (games ! i))")
    case (Inl e)
    with True show ?thesis by (subst matrixLoop.simps) (simp add: error_is_TypeError)
  next
    case (Inr m1)
    then have "state2 (games ! (i - 1)) \<in> fst ` set m"
      using incrCell_Inl [of m "state2 (games ! (i - 1))" "state1 (games ! i)"] by auto
    with "1.prems" have ij: "i + 1 \<le> j" by (cases "i = j") auto
    have "fst ` set m1 = fst ` set m"
      using incrCell_keys [OF Inr] by (metis set_map)
    with "1.prems" have "state2 (games ! (j - 1)) \<notin> fst ` set m1" by simp
    from "1.IH" [OF True Inr ij "1.prems"(2) this] True Inr show ?thesis
      by (subst matrixLoop.simps) simp
  qed
qed

lemma matrixLoop_row_keys:
  "matrixLoop games i m = Inr m' \<Longrightarrow> map_of m A = Some row \<Longrightarrow>
   \<forall>j. i \<le> j \<and> j < length games \<longrightarrow> state1 (games ! j) \<in> fst ` set row \<Longrightarrow>
   \<exists>row'. map_of m' A = Some row' \<and> map fst row' = map fst row"
proof (induction games i m arbitrary: row rule: matrixLoop.induct)
  case (1 games i m)
  show ?case
  proof (cases "i < length games")
    case True
    with "1.prems" obtain m1 where
      s: "incrCell m (state2 (games ! (i - 1))) (state1 (games ! i)) = Inr m1"
      and r: "matrixLoop games (i + 1) m1 = Inr m'"
      by (subst (asm) matrixLoop.simps) (auto split: sum.splits)
    from "1.prems" True have "state1 (games ! i) \<in> fst ` set row" by simp
    with incrCell_row_keys [OF s "1.prems"(2)] obtain row1 where
      r1: "map_of m1 A = Some row1" and k1: "map fst row1 = map fst row" by auto
    from k1 have "fst ` set row1 = fst ` set row" by (metis set_map)
    with "1.prems" have
      "\<forall>j. i + 1 \<le> j \<and> j < length games \<longrightarrow> state1 (games ! j) \<in> fst ` set row1" by simp
    from "1.IH" [OF True s r r1 this] k1 show ?thesis by simp
  next
    case False
    with "1.prems" show ?thesis by (subst (asm) matrixLoop.simps) simp
  qed
qed

lemma matrixLoop_nan_stays:
  "matrixLoop games i m = Inr m' \<Longrightarrow> cell m A B = Some CountNaN \<Longrightarrow>
   cell m' A B = Some CountNaN"
proof (induction games i m rule: matrixLoop.induct)
  case (1 games i m)
  show ?case
  proof (cases "i < length games")
    case True
    with "1.prems" obtain m1 where
      s: "incrCell m (state2 (games ! (i - 1))) (state1 (games ! i)) = Inr m1"
      and r: "matrixLoop games (i + 1) m1 = Inr m'"
      by (subst (asm) matrixLoop.simps) (auto split: sum.splits)
    from incrCell_cell [OF s, of A B] "1.prems"(2) have "cell m1 A B = Some CountNaN"
      by auto
    from "1.IH" [OF True s r this] show ?thesis .
  next
    case False
    with "1.prems" show ?thesis by (subst (asm) matrixLoop.simps) simp
  qed
qed

lemma matrixLoop_nan:
  "matrixLoop games i m = Inr m' \<Longrightarrow> cell m A B = None \<or> cell m A B = Some CountNaN \<Longrightarrow>
   i \<le> j \<Longrightarrow> j < length games \<Longrightarrow> state2 (games ! (j - 1)) = A \<Longrightarrow> state1 (games ! j) = B \<Longrightarrow>
   cell m' A B = Some CountNaN"
proof (induction games i m rule: matrixLoop.induct)
  case (1 games i m)
  from "1.prems" have True: "i < length games" by simp
  with "1.prems" obtain m1 where
    s: "incrCell m (state2 (games ! (i - 1))) (state1 (games ! i)) = Inr m1"
    and r: "matrixLoop games (i + 1) m1 = Inr m'"
    by (subst (asm) matrixLoop.simps) (auto split: sum.splits)
  show ?case
  proof (cases "i = j")
    case True
    with incrCell_cell [OF s, of A B] "1.prems" have "cell m1 A B = Some CountNaN"
      by auto
    from matrixLoop_nan_stays [OF r this] show ?thesis .
  next
    case False
    with "1.prems" have ij: "i + 1 \<le> j" by simp
    from incrCell_cell [OF s, of A B] "1.prems"(2)
    have "cell m1 A B = None \<or> cell m1 A B = Some CountNaN" by auto
    from "1.IH" [OF \<open>i < length games\<close> s r this ij "1.prems"(4,5,6)] show ?thesis .
  qed
qed

lemma knownStates_nth:
  "knownStates games \<Longrightarrow> j < length games \<Longrightarrow>
   state1 (games ! j) \<in> set states \<and> state2 (games ! j) \<in> set states"
  by (simp add: knownStates_def list_all_length)

lemma emptyMatrix_keys: "map fst emptyMatrix = states"
  by (simp add: emptyMatrix_eq states_def)

lemma emptyMatrix_dom: "fst ` set emptyMatrix = set states"
  by (simp add: emptyMatrix_eq states_def)

lemma emptyMatrix_rows:
  "A \<in> set states \<Longrightarrow>
   map_of emptyMatrix A = Some [(LOW, Count 0), (MID, Count 0), (HIGH, Count 0), (EXTREME, Count 0)]"
  by (auto simp add: emptyMatrix_eq states_def)

lemma emptyMatrix_cells:
  "cell emptyMatrix A B = (if A \<in> set states \<and> B \<in> set states then Some (Count 0) else None)"
  by (cases A; cases B) (simp_all add: cell_def emptyMatrix_eq states_def)

lemma buildTransitionMatrix_short:
  "length games < 2 \<Longrightarrow> buildTransitionMatrix games = Inr None"
  by (simp add: buildTransitionMatrix_def)

lemma buildTransitionMatrix_known:
  assumes len: "2 \<le> length games" and known: "knownStates games"
  shows "\<exists>m. buildTransitionMatrix games = Inr (Some m) \<and> map fst m = states \<and>
           (\<forall>A\<in>set states. \<exists>row. map_of m A = Some row \<and> map fst row = states) \<and>
           (\<forall>A\<in>set states. \<forall>B\<in>set states.
              cell m A B = Some (Count (transitionCount games A B)))"
proof -
  have "\<forall>j. 1 \<le> j \<and> j < length games \<longrightarrow> state2 (games ! (j - 1)) \<in> fst ` set emptyMatrix"
    using knownStates_nth [OF known] by (simp add: emptyMatrix_dom less_imp_diff_less)
  from matrixLoop_ok [OF this] obtain m where m: "matrixLoop games 1 emptyMatrix = Inr m" ..
  have b: "buildTransitionMatrix games = Inr (Some m)"
    using len m by (simp add: buildTransitionMatrix_def)
  have k: "map fst m = states"
    using matrixLoop_keys [OF m] emptyMatrix_keys by simp
  have rows: "\<exists>row. map_of m A = Some row \<and> map fst row = states" if "A \<in> set states" for A
  proof -
    have "\<forall>j. 1 \<le> j \<and> j < length games \<longrightarrow>
            state1 (games ! j) \<in> fst ` set [(LOW, Count 0), (MID, Count 0), (HIGH, Count 0), (EXTREME, Count 0)]"
      using knownStates_nth [OF known] by (simp add: states_def)
    from matrixLoop_row_keys [OF m emptyMatrix_rows [OF that] this]
    show ?thesis by (simp add: states_def)
  qed
  have cells: "cell m A B = Some (Count (transitionCount games A B))"
    if "A \<in> set states" "B \<in> set states" for A B
    using matrixLoop_count [OF m, of A B 0] that
    by (simp add: emptyMatrix_cells transitionCount_def)
  from b k rows cells show ?thesis by blast
qed

lemma buildTransitionMatrix_fails_iff:
  assumes len: "2 \<le> length games"
  shows "(buildTransitionMatrix games = Inl TypeError)
           = (\<exists>i. i + 1 < length games \<and> state2 (games ! i) \<notin> set states)"
proof
  assume f: "buildTransitionMatrix games = Inl TypeError"
  show "\<exists>i. i + 1 < length games \<and> state2 (games ! i) \<notin> set states"
  proof (rule ccontr)
    assume neg: "\<not> ?thesis"
    have "state2 (games ! (j - 1)) \<in> fst ` set emptyMatrix" if "1 \<le> j" "j < length games" for j
    proof -
      from that have "(j - 1) + 1 < length games" by simp
      with neg show ?thesis unfolding emptyMatrix_dom by blast
    qed
    then have "\<forall>j. 1 \<le> j \<and> j < length games \<longrightarrow> state2 (games ! (j - 1)) \<in> fst ` set emptyMatrix"
      by blast
    from matrixLoop_ok [OF this] f len show False
      by (auto simp add: buildTransitionMatrix_def)
  qed
next
  assume "\<exists>i. i + 1 < length games \<and> state2 (games ! i) \<notin> set states"
  then obtain i where i: "i + 1 < length games" "state2 (games ! i) \<notin> set states" by blast
  have "state2 (games ! (i + 1 - 1)) \<notin> fst ` set emptyMatrix"
    using i(2) by (simp add: emptyMatrix_dom)
  from matrixLoop_fails [OF _ i(1) this, of 1] len show "buildTransitionMatrix games = Inl TypeError"
    by (simp add: buildTransitionMatrix_def)
qed

lemma getStateTransitionProbability_UNKNOWN:
  assumes len: "2 \<le> length games"
  shows "getStateTransitionProbability games UNKNOWN = Inl TypeError"
proof (cases "matrixLoop games 1 emptyMatrix")
  case (Inl e)
  with len show ?thesis
    by (simp add: getStateTransitionProbability_def buildTransitionMatrix_def error_is_TypeError)
next
  case (Inr m)
  have "map fst m = states" using matrixLoop_keys [OF Inr] emptyMatrix_keys by simp
  then have "fst ` set m = set states" by (metis set_map)
  then have "UNKNOWN \<notin> fst ` set m" by (simp add: states_def)
  then have "map_of m UNKNOWN = None" by (simp add: map_of_eq_None_iff)
  with len Inr show ?thesis
    by (simp add: getStateTransitionProbability_def buildTransitionMatrix_def)
qed

lemma unknown_column_is_NaN:
  assumes b: "buildTransitionMatrix games = Inr (Some m)"
    and i: "1 \<le> i" "i < length games" and u: "state1 (games ! i) = UNKNOWN"
  shows "cell m (state2 (games ! (i - 1))) UNKNOWN = Some CountNaN"
proof -
  from b have m: "matrixLoop games 1 emptyMatrix = Inr m"
    by (auto simp add: buildTransitionMatrix_def split: if_splits sum.splits)
  have "cell emptyMatrix (state2 (games ! (i - 1))) UNKNOWN = None"
    by (simp add: emptyMatrix_cells states_def)
  then show ?thesis using matrixLoop_nan [OF m _ i(1) i(2) refl u] by simp
qed






text \<open>
  C10, as stated, says that on every log of at least 2 rounds that contains a round
  with an \<open>UNKNOWN\<close> state the increment reads a row that is not there and fails. It
  does not when the \<open>UNKNOWN\<close> state is a \<open>state1\<close>: in the first round it is never read,
  and in a later round it is the column of the increment, which is then created
  holding \<open>NaN\<close>; the matrix is returned, and so are the percentages of its rows.
\<close>

theorem unknown_state1_does_not_fail:
  "2 \<le> length [newGame 10 10, newGame 60 10] \<and>
   state1 ([newGame 10 10, newGame 60 10] ! 1) = UNKNOWN \<and>
   buildTransitionMatrix [newGame 10 10, newGame 60 10] =
     Inr (Some
       [(LOW, [(LOW, Count 0), (MID, Count 0), (HIGH, Count 0), (EXTREME, Count 0),
               (UNKNOWN, CountNaN)]),
        (MID, [(LOW, Count 0), (MID, Count 0), (HIGH, Count 0), (EXTREME, Count 0)]),
        (HIGH, [(LOW, Count 0), (MID, Count 0), (HIGH, Count 0), (EXTREME, Count 0)]),
        (EXTREME, [(LOW, Count 0), (MID, Count 0), (HIGH, Count 0), (EXTREME, Count 0)])]) \<and>
   getStateTransitionProbability [newGame 10 10, newGame 60 10] LOW =
     Inr (Some [(LOW, NaN), (MID, NaN), (HIGH, NaN), (EXTREME, NaN), (UNKNOWN, NaN)]) \<and>
   2 \<le> length [newGame 60 10, newGame 10 10] \<and>
   state1 ([newGame 60 10, newGame 10 10] ! 0) = UNKNOWN \<and>
   buildTransitionMatrix [newGame 60 10, newGame 10 10] =
     Inr (Some
       [(LOW, [(LOW, Count 1), (MID, Count 0), (HIGH, Count 0), (EXTREME, Count 0)]),
        (MID, [(LOW, Count 0), (MID, Count 0), (HIGH, Count 0), (EXTREME, Count 0)]),
        (HIGH, [(LOW, Count 0), (MID, Count 0), (HIGH, Count 0), (EXTREME, Count 0)]),
        (EXTREME, [(LOW, Count 0), (MID, Count 0), (HIGH, Count 0), (EXTREME, Count 0)])]) \<and>
   getStateTransitionProbability [newGame 60 10, newGame 10 10] LOW =
     Inr (Some [(LOW, Fin 100), (MID, Fin 0), (HIGH, Fin 0), (EXTREME, Fin 0)])"
  by code_simp

text \<open>
  C10, amended. When every stored state is one of the four, \<open>buildTransitionMatrix\<close>
  does not fail and the matrix it returns still has exactly the four rows and, in each
  row, the four columns: every increment was in bounds. On a log of at least 2 rounds it fails (instead of returning \<open>null\<close>)
  exactly when some round other than the last has a \<open>state2\<close> outside the four
  states, the row of an increment. On a log of at least 2 rounds
  \<open>getStateTransitionProbability\<close> fails for the row \<open>UNKNOWN\<close>. When the matrix is
  returned and a round \<open>i \<ge> 1\<close> has \<open>state1 = UNKNOWN\<close>, the row of \<open>round(i - 1).state2\<close>
  has got a fifth column \<open>UNKNOWN\<close> that holds \<open>NaN\<close>.
\<close>

theorem unknown_state_in_transitions:
  "(knownStates games \<longrightarrow> buildTransitionMatrix games \<noteq> Inl TypeError) \<and>
   (knownStates games \<and> buildTransitionMatrix games = Inr (Some m) \<longrightarrow>
      map fst m = states \<and>
      (\<forall>A\<in>set states. \<exists>row. map_of m A = Some row \<and> map fst row = states)) \<and>
   (2 \<le> length games \<longrightarrow>
      (buildTransitionMatrix games = Inl TypeError)
        = (\<exists>i. i + 1 < length games \<and> state2 (games ! i) \<notin> set states)) \<and>
   (2 \<le> length games \<longrightarrow> getStateTransitionProbability games UNKNOWN = Inl TypeError) \<and>
   (buildTransitionMatrix games = Inr (Some m) \<and> 1 \<le> i \<and> i < length games \<and>
      state1 (games ! i) = UNKNOWN \<longrightarrow>
      cell m (state2 (games ! (i - 1))) UNKNOWN = Some CountNaN)"
proof -
  have "buildTransitionMatrix games \<noteq> Inl TypeError" if "knownStates games"
  proof (cases "length games < 2")
    case True
    then show ?thesis by (simp add: buildTransitionMatrix_short)
  next
    case False
    then have "2 \<le> length games" by simp
    from buildTransitionMatrix_known [OF this that] show ?thesis by auto
  qed
  moreover have "map fst m = states \<and>
      (\<forall>A\<in>set states. \<exists>row. map_of m A = Some row \<and> map fst row = states)"
    if k: "knownStates games" and b: "buildTransitionMatrix games = Inr (Some m)"
  proof -
    from b have "2 \<le> length games"
      by (auto simp add: buildTransitionMatrix_def split: if_splits)
    from buildTransitionMatrix_known [OF this k] b show ?thesis by auto
  qed
  ultimately show ?thesis
    using buildTransitionMatrix_fails_iff [of games]
      getStateTransitionProbability_UNKNOWN [of games]
      unknown_column_is_NaN [of games m i]
    by blast
qed

theorem unknown_state_in_transitions_witness:
  "2 \<le> length [newGame 10 60, newGame 10 10, newGame 10 10] \<and>
   0 + 1 < length [newGame 10 60, newGame 10 10, newGame 10 10] \<and>
   state2 ([newGame 10 60, newGame 10 10, newGame 10 10] ! 0) \<notin> set states \<and>
   buildTransitionMatrix [newGame 10 60, newGame 10 10, newGame 10 10] = Inl TypeError \<and>
   getStateTransitionProbability [newGame 10 60, newGame 10 10, newGame 10 10] UNKNOWN
     = Inl TypeError \<and>
   knownStates [newGame 10 10, newGame 10 10] \<and>
   buildTransitionMatrix [newGame 10 10, newGame 10 10] \<noteq> Inl TypeError \<and>
   (\<exists>m. buildTransitionMatrix [newGame 10 10, newGame 60 10] = Inr (Some m) \<and>
        state1 ([newGame 10 10, newGame 60 10] ! 1) = UNKNOWN \<and>
        cell m LOW UNKNOWN = Some CountNaN)"
proof -
  let ?N = "[newGame 10 10, newGame 60 10]"
  obtain m where b: "buildTransitionMatrix ?N = Inr (Some m)"
  proof -
    have "2 \<le> length ?N" by simp
    moreover have "\<not> (\<exists>i. i + 1 < length ?N \<and> state2 (?N ! i) \<notin> set states)"
      by (simp add: newGame_def getState_def states_def)
    ultimately have "buildTransitionMatrix ?N \<noteq> Inl TypeError"
      using unknown_state_in_transitions [of ?N] by blast
    then show ?thesis using that
      by (cases "buildTransitionMatrix ?N")
         (auto simp add: error_is_TypeError buildTransitionMatrix_def split: sum.splits)
  qed
  have n: "state1 (?N ! 1) = UNKNOWN" "state2 (?N ! (1 - 1)) = LOW"
    by (simp_all add: newGame_def getState_def)
  have "cell m (state2 (?N ! (1 - 1))) UNKNOWN = Some CountNaN"
    using unknown_state_in_transitions [of ?N m 1] b n(1) by simp
  with b n have nan: "\<exists>m. buildTransitionMatrix ?N = Inr (Some m) \<and>
        state1 (?N ! 1) = UNKNOWN \<and> cell m LOW UNKNOWN = Some CountNaN" by auto
  let ?L = "[newGame 10 60, newGame 10 10, newGame 10 10]"
  let ?K = "[newGame 10 10, newGame 10 10]"
  have l: "2 \<le> length ?L" by simp
  have i: "0 + 1 < length ?L" by simp
  have u: "state2 (?L ! 0) \<notin> set states"
    by (simp add: newGame_def getState_def states_def)
  have k: "knownStates ?K"
    by (simp add: knownStates_def newGame_def getState_def states_def)
  from i u have ex: "\<exists>i. i + 1 < length ?L \<and> state2 (?L ! i) \<notin> set states" by blast
  from unknown_state_in_transitions [of ?L] l ex
  have "buildTransitionMatrix ?L = Inl TypeError"
    "getStateTransitionProbability ?L UNKNOWN = Inl TypeError" by blast+
  moreover from unknown_state_in_transitions [of ?K] k
  have "buildTransitionMatrix ?K \<noteq> Inl TypeError" by blast
  ultimately show ?thesis using l i u k nan by blast
qed


subsection \<open>The recent window and the whole log\<close>

lemma getRecentGames_lastRounds:
  "getRecentGames maxMemoryWindow games = lastRounds (min 20 (length games)) games"
  by (simp add: getRecentGames_def maxMemoryWindow_def lastRounds_def rev_take min_def)

lemma getRecentGames_drop:
  "getRecentGames maxMemoryWindow games = drop (length games - 20) games"
  by (simp add: getRecentGames_def maxMemoryWindow_def)

lemma getRecentGames_Cons:
  "20 \<le> length rest \<Longrightarrow>
   getRecentGames maxMemoryWindow (g # rest) = getRecentGames maxMemoryWindow rest"
proof -
  assume "20 \<le> length rest"
  then have "length (g # rest) - 20 = Suc (length rest - 20)" by simp
  then show ?thesis by (simp only: getRecentGames_drop drop_Suc_Cons)
qed

lemma foldl_trendStep:
  "foldl trendStep t w =
     \<lparr>upCount = upCount t + length (filter (\<lambda>g. direction (trend g) = naik) w),
      downCount = downCount t + length (filter (\<lambda>g. direction (trend g) = turun) w),
      stableCount = stableCount t + length (filter (\<lambda>g. direction (trend g) = stabil) w)\<rparr>"
proof (induction w arbitrary: t)
  case Nil
  show ?case by simp
next
  case (Cons g w)
  show ?case
    unfolding foldl_Cons Cons.IH
    by (cases "direction (trend g)") (simp_all add: trendStep_def)
qed

lemma foldl_classification:
  "foldl (\<lambda>(kecilCount, besarCount) g.
            if classification g = KECIL then (kecilCount + 1, besarCount)
            else (kecilCount, besarCount + 1)) (k, b) w =
     (k + length (filter (\<lambda>g. classification g = KECIL) w),
      b + length (filter (\<lambda>g. classification g = BESAR) w))"
proof (induction w arbitrary: k b)
  case Nil
  show ?case by simp
next
  case (Cons g w)
  show ?case
    by (cases "classification g") (simp_all add: Cons.IH)
qed

lemma foldl_stateCounts:
  "map_of sc A = Some (Count n) \<Longrightarrow>
   map_of (foldl (\<lambda>stateCounts g.
                    AList.update (state2 g) (incr (map_of stateCounts (state2 g))) stateCounts)
             sc w) A
     = Some (Count (n + length (filter (\<lambda>g. state2 g = A) w)))"
proof (induction w arbitrary: sc n)
  case Nil
  then show ?case by simp
next
  case (Cons g w)
  have "map_of (AList.update (state2 g) (incr (map_of sc (state2 g))) sc) A
          = Some (Count (n + (if state2 g = A then 1 else 0)))"
    using Cons.prems by (auto simp add: AList.update_conv')
  from Cons.IH [OF this] show ?case by simp
qed

lemma foldl_stateCounts_keys:
  "\<forall>g\<in>set w. state2 g \<in> fst ` set sc \<Longrightarrow>
   map fst (foldl (\<lambda>stateCounts g.
                    AList.update (state2 g) (incr (map_of stateCounts (state2 g))) stateCounts)
             sc w) = map fst sc"
proof (induction w arbitrary: sc)
  case Nil
  then show ?case by simp
next
  case (Cons g w)
  let ?sc = "AList.update (state2 g) (incr (map_of sc (state2 g))) sc"
  have k: "map fst ?sc = map fst sc" using Cons.prems by (simp add: AList.update_keys)
  then have "fst ` set ?sc = fst ` set sc" by (metis set_map)
  with Cons.prems have "\<forall>g\<in>set w. state2 g \<in> fst ` set ?sc" by simp
  from Cons.IH [OF this] k show ?case by simp
qed

lemma analyzeTrendDirection_window:
  "games \<noteq> [] \<Longrightarrow>
   analyzeTrendDirection games =
     Some \<lparr>upCount = length (filter (\<lambda>g. direction (trend g) = naik)
                               (getRecentGames maxMemoryWindow games)),
           downCount = length (filter (\<lambda>g. direction (trend g) = turun)
                               (getRecentGames maxMemoryWindow games)),
           stableCount = length (filter (\<lambda>g. direction (trend g) = stabil)
                               (getRecentGames maxMemoryWindow games))\<rparr>"
  by (simp add: analyzeTrendDirection_def foldl_trendStep)

lemma getClassificationFrequency_window:
  "games \<noteq> [] \<Longrightarrow>
   getClassificationFrequency games =
     [(KECIL, length (filter (\<lambda>g. classification g = KECIL)
                        (getRecentGames maxMemoryWindow games))),
      (BESAR, length (filter (\<lambda>g. classification g = BESAR)
                        (getRecentGames maxMemoryWindow games)))]"
  by (simp add: getClassificationFrequency_def foldl_classification)

lemma getStateDominance_window:
  "games \<noteq> [] \<Longrightarrow> A \<in> set states \<Longrightarrow>
   map_of (getStateDominance games) A =
     Some (Count (length (filter (\<lambda>g. state2 g = A) (getRecentGames maxMemoryWindow games))))"
  using foldl_stateCounts [of "[(LOW, Count 0), (MID, Count 0), (HIGH, Count 0), (EXTREME, Count 0)]" A 0
      "getRecentGames maxMemoryWindow games"]
  by (auto simp add: getStateDominance_def states_def)

lemma foldl_roll2: "foldl (\<lambda>sum g. sum + roll2 g) a games = a + sum_list (map roll2 games)"
  by (induction games arbitrary: a) simp_all

lemma averageRoll2_whole:
  "averageRoll2 games =
     jdiv (Fin (of_int (sum_list (map roll2 games)))) (Fin (of_nat (length games)))"
  by (simp add: averageRoll2_def foldl_roll2)

lemma transitionCount_Cons:
  "transitionCount (g # rest) A B =
     (if rest \<noteq> [] \<and> state2 g = A \<and> state1 (rest ! 0) = B then 1 else 0)
       + transitionCount rest A B"
proof (cases "rest = []")
  case True
  then show ?thesis by (simp add: transitionCount_def)
next
  case False
  let ?P = "\<lambda>i. state2 ((g # rest) ! (i - 1)) = A \<and> state1 ((g # rest) ! i) = B"
  let ?Q = "\<lambda>i. state2 (rest ! (i - 1)) = A \<and> state1 (rest ! i) = B"
  from False have n: "1 < Suc (length rest)" by simp
  have idx: "[1..<length (g # rest)] = 1 # map Suc [1..<length rest]"
    using upt_conv_Cons [OF n] by (simp only: map_Suc_upt length_Cons One_nat_def)
  have "filter (?P \<circ> Suc) [1..<length rest] = filter ?Q [1..<length rest]"
    by (rule filter_cong) (auto simp add: nth_Cons')
  then have "length (filter ?P (map Suc [1..<length rest])) = length (filter ?Q [1..<length rest])"
    by (simp only: filter_map length_map)
  then show ?thesis
    using False unfolding transitionCount_def idx by simp
qed


text \<open>
  C5: the window is the last \<open>min(20, length)\<close> rounds in their original order; on a
  non-empty log the trend counts, the classification frequency and the state dominance
  count over exactly that window; the transition matrix counts the pairs of the whole
  log and the average divides the sum of every \<open>roll2\<close> by the length of the log. Hence
  for a log \<open>g # rest\<close> of length 21 the window is \<open>rest\<close>, the three window aggregates
  are those of \<open>rest\<close>, while the transition out of \<open>g\<close> adds one to the pair count of the
  matrix and \<open>roll2 g\<close> is a summand of the average.
\<close>

theorem window_and_whole_log:
  "getRecentGames maxMemoryWindow games = lastRounds (min 20 (length games)) games \<and>
   (games \<noteq> [] \<longrightarrow>
      analyzeTrendDirection games =
        Some \<lparr>upCount = length (filter (\<lambda>g. direction (trend g) = naik)
                                  (lastRounds (min 20 (length games)) games)),
              downCount = length (filter (\<lambda>g. direction (trend g) = turun)
                                  (lastRounds (min 20 (length games)) games)),
              stableCount = length (filter (\<lambda>g. direction (trend g) = stabil)
                                  (lastRounds (min 20 (length games)) games))\<rparr> \<and>
      getClassificationFrequency games =
        [(KECIL, length (filter (\<lambda>g. classification g = KECIL)
                           (lastRounds (min 20 (length games)) games))),
         (BESAR, length (filter (\<lambda>g. classification g = BESAR)
                           (lastRounds (min 20 (length games)) games)))] \<and>
      (\<forall>A\<in>set states.
         map_of (getStateDominance games) A =
           Some (Count (length (filter (\<lambda>g. state2 g = A)
                                  (lastRounds (min 20 (length games)) games)))))) \<and>
   (2 \<le> length games \<and> knownStates games \<longrightarrow>
      (\<exists>m. buildTransitionMatrix games = Inr (Some m) \<and>
           (\<forall>A\<in>set states. \<forall>B\<in>set states.
              cell m A B = Some (Count (transitionCount games A B))))) \<and>
   averageRoll2 games =
     jdiv (Fin (of_int (sum_list (map roll2 games)))) (Fin (of_nat (length games))) \<and>
   (length rest = 20 \<longrightarrow>
      lastRounds (min 20 (length (g # rest))) (g # rest) = rest \<and>
      analyzeTrendDirection (g # rest) = analyzeTrendDirection rest \<and>
      getClassificationFrequency (g # rest) = getClassificationFrequency rest \<and>
      getStateDominance (g # rest) = getStateDominance rest \<and>
      transitionCount (g # rest) (state2 g) (state1 (rest ! 0))
        = transitionCount rest (state2 g) (state1 (rest ! 0)) + 1 \<and>
      sum_list (map roll2 (g # rest)) = roll2 g + sum_list (map roll2 rest))"
proof -
  have w: "getRecentGames maxMemoryWindow games = lastRounds (min 20 (length games)) games"
    by (rule getRecentGames_lastRounds)
  have agg: "analyzeTrendDirection games =
        Some \<lparr>upCount = length (filter (\<lambda>g. direction (trend g) = naik)
                                  (lastRounds (min 20 (length games)) games)),
              downCount = length (filter (\<lambda>g. direction (trend g) = turun)
                                  (lastRounds (min 20 (length games)) games)),
              stableCount = length (filter (\<lambda>g. direction (trend g) = stabil)
                                  (lastRounds (min 20 (length games)) games))\<rparr> \<and>
      getClassificationFrequency games =
        [(KECIL, length (filter (\<lambda>g. classification g = KECIL)
                           (lastRounds (min 20 (length games)) games))),
         (BESAR, length (filter (\<lambda>g. classification g = BESAR)
                           (lastRounds (min 20 (length games)) games)))] \<and>
      (\<forall>A\<in>set states.
         map_of (getStateDominance games) A =
           Some (Count (length (filter (\<lambda>g. state2 g = A)
                                  (lastRounds (min 20 (length games)) games)))))"
    if "games \<noteq> []"
    using analyzeTrendDirection_window [OF that] getClassificationFrequency_window [OF that]
      getStateDominance_window [OF that]
    unfolding w by blast
  have mat: "\<exists>m. buildTransitionMatrix games = Inr (Some m) \<and>
           (\<forall>A\<in>set states. \<forall>B\<in>set states.
              cell m A B = Some (Count (transitionCount games A B)))"
    if "2 \<le> length games \<and> knownStates games"
    using buildTransitionMatrix_known [of games] that by blast
  have old: "lastRounds (min 20 (length (g # rest))) (g # rest) = rest \<and>
      analyzeTrendDirection (g # rest) = analyzeTrendDirection rest \<and>
      getClassificationFrequency (g # rest) = getClassificationFrequency rest \<and>
      getStateDominance (g # rest) = getStateDominance rest \<and>
      transitionCount (g # rest) (state2 g) (state1 (rest ! 0))
        = transitionCount rest (state2 g) (state1 (rest ! 0)) + 1 \<and>
      sum_list (map roll2 (g # rest)) = roll2 g + sum_list (map roll2 rest)"
    if len: "length rest = 20"
  proof -
    from len have ne: "rest \<noteq> []" by auto
    from len have r: "getRecentGames maxMemoryWindow (g # rest) = getRecentGames maxMemoryWindow rest"
      by (simp add: getRecentGames_Cons)
    from len have "getRecentGames maxMemoryWindow rest = rest"
      by (simp add: getRecentGames_drop)
    with r have "lastRounds (min 20 (length (g # rest))) (g # rest) = rest"
      using getRecentGames_lastRounds [of "g # rest"] by simp
    moreover have "analyzeTrendDirection (g # rest) = analyzeTrendDirection rest"
      using ne by (simp add: analyzeTrendDirection_def r)
    moreover have "getClassificationFrequency (g # rest) = getClassificationFrequency rest"
      using ne by (simp add: getClassificationFrequency_def r)
    moreover have "getStateDominance (g # rest) = getStateDominance rest"
      using ne by (simp add: getStateDominance_def r)
    moreover have "transitionCount (g # rest) (state2 g) (state1 (rest ! 0))
        = transitionCount rest (state2 g) (state1 (rest ! 0)) + 1"
      using ne by (simp add: transitionCount_Cons)
    ultimately show ?thesis by simp
  qed
  from w agg mat averageRoll2_whole [of games] old show ?thesis by blast
qed

theorem window_and_whole_log_witness:
  "newGame 40 40 # replicate 20 (newGame 10 20) \<noteq> [] \<and>
   2 \<le> length (newGame 40 40 # replicate 20 (newGame 10 20)) \<and>
   knownStates (newGame 40 40 # replicate 20 (newGame 10 20)) \<and>
   length (replicate 20 (newGame 10 20)) = 20 \<and>
   lastRounds (min 20 (length (newGame 40 40 # replicate 20 (newGame 10 20))))
       (newGame 40 40 # replicate 20 (newGame 10 20))
     = replicate 20 (newGame 10 20) \<and>
   analyzeTrendDirection (newGame 40 40 # replicate 20 (newGame 10 20))
     = analyzeTrendDirection (replicate 20 (newGame 10 20)) \<and>
   analyzeTrendDirection (newGame 40 40 # replicate 20 (newGame 10 20))
     = Some \<lparr>upCount = 20, downCount = 0, stableCount = 0\<rparr> \<and>
   getClassificationFrequency (newGame 40 40 # replicate 20 (newGame 10 20))
     = getClassificationFrequency (replicate 20 (newGame 10 20)) \<and>
   getStateDominance (newGame 40 40 # replicate 20 (newGame 10 20))
     = getStateDominance (replicate 20 (newGame 10 20)) \<and>
   transitionCount (newGame 40 40 # replicate 20 (newGame 10 20)) HIGH LOW
     = transitionCount (replicate 20 (newGame 10 20)) HIGH LOW + 1 \<and>
   (\<exists>m. buildTransitionMatrix (newGame 40 40 # replicate 20 (newGame 10 20)) = Inr (Some m) \<and>
        cell m HIGH LOW
          = Some (Count (transitionCount (newGame 40 40 # replicate 20 (newGame 10 20)) HIGH LOW)))"
proof -
  let ?g = "newGame 40 40"
  let ?rest = "replicate 20 (newGame 10 20)"
  have ne: "?g # ?rest \<noteq> []" by simp
  have l2: "2 \<le> length (?g # ?rest)" by simp
  have k: "knownStates (?g # ?rest)"
    by (simp add: knownStates_def list_all_iff newGame_def getState_def states_def)
  have l: "length ?rest = 20" by simp
  have s: "state2 ?g = HIGH" "state1 (?rest ! 0) = LOW"
    by (simp_all add: newGame_def getState_def)
  note t = window_and_whole_log [of "?g # ?rest" ?rest ?g]
  from t l have "lastRounds (min 20 (length (?g # ?rest))) (?g # ?rest) = ?rest"
    "analyzeTrendDirection (?g # ?rest) = analyzeTrendDirection ?rest"
    "getClassificationFrequency (?g # ?rest) = getClassificationFrequency ?rest"
    "getStateDominance (?g # ?rest) = getStateDominance ?rest"
    "transitionCount (?g # ?rest) (state2 ?g) (state1 (?rest ! 0))
        = transitionCount ?rest (state2 ?g) (state1 (?rest ! 0)) + 1"
    by blast+
  moreover from t l2 k obtain m where
    "buildTransitionMatrix (?g # ?rest) = Inr (Some m)"
    "\<forall>A\<in>set states. \<forall>B\<in>set states.
       cell m A B = Some (Count (transitionCount (?g # ?rest) A B))"
    by blast
  then have "\<exists>m. buildTransitionMatrix (?g # ?rest) = Inr (Some m) \<and>
        cell m HIGH LOW = Some (Count (transitionCount (?g # ?rest) HIGH LOW))"
    by (auto simp add: states_def)
  moreover have "analyzeTrendDirection (?g # ?rest)
      = Some \<lparr>upCount = 20, downCount = 0, stableCount = 0\<rparr>"
  proof -
    have d: "direction (trend (newGame 10 20)) = naik"
      by (simp add: newGame_def calculateTrend_def)
    from t l have w: "lastRounds (min 20 (length (?g # ?rest))) (?g # ?rest) = ?rest" by blast
    from t ne have "analyzeTrendDirection (?g # ?rest) =
        Some \<lparr>upCount = length (filter (\<lambda>g. direction (trend g) = naik)
                 (lastRounds (min 20 (length (?g # ?rest))) (?g # ?rest))),
              downCount = length (filter (\<lambda>g. direction (trend g) = turun)
                 (lastRounds (min 20 (length (?g # ?rest))) (?g # ?rest))),
              stableCount = length (filter (\<lambda>g. direction (trend g) = stabil)
                 (lastRounds (min 20 (length (?g # ?rest))) (?g # ?rest)))\<rparr>"
      by blast
    then show ?thesis unfolding w by (simp add: d)
  qed
  ultimately show ?thesis using ne l2 k l unfolding s by blast
qed


subsection \<open>The empty log\<close>

text \<open>
  C9: on the empty log \<open>getClassificationFrequency\<close> returns the zero-filled object
  \<open>{KECIL: 0, BESAR: 0}\<close>, \<open>getStateDominance\<close> returns the object with no key at all,
  which is not the four-key object of zeros, and \<open>getLastState\<close> returns \<open>null\<close>.
\<close>

theorem empty_log_results:
  "getClassificationFrequency [] = [(KECIL, 0), (BESAR, 0)] \<and>
   getStateDominance [] = [] \<and>
   map fst (getStateDominance []) = [] \<and>
   getStateDominance [] \<noteq> [(LOW, Count 0), (MID, Count 0), (HIGH, Count 0), (EXTREME, Count 0)] \<and>
   getLastState [] = None"
  by (simp add: getClassificationFrequency_def getStateDominance_def getLastState_def)

subsection \<open>Dominant trend\<close>

lemma labels_distinct:
  "label_naik \<noteq> label_turun" "label_naik \<noteq> label_stabil" "label_turun \<noteq> label_stabil"
  "label_turun \<noteq> label_naik" "label_stabil \<noteq> label_naik" "label_stabil \<noteq> label_turun"
  by (simp_all add: label_naik_def label_turun_def label_stabil_def)

text \<open>
  C6: on a non-empty log, with \<open>t\<close> the counts of \<open>analyzeTrendDirection\<close>, the label is
  the "up" label exactly when \<open>upCount\<close> strictly exceeds both other counts, the "down"
  label exactly when \<open>downCount\<close> strictly exceeds both other counts, and the "stable"
  label in every other case; so a tie between up and down gives "stable".
\<close>

theorem getTrendDominant_strict:
  assumes "games \<noteq> []"
  shows "\<exists>t. analyzeTrendDirection games = Some t \<and>
    (getTrendDominant games = label_naik)
       = (upCount t > downCount t \<and> upCount t > stableCount t) \<and>
    (getTrendDominant games = label_turun)
       = (downCount t > upCount t \<and> downCount t > stableCount t) \<and>
    (getTrendDominant games = label_stabil)
       = (\<not> (upCount t > downCount t \<and> upCount t > stableCount t) \<and>
          \<not> (downCount t > upCount t \<and> downCount t > stableCount t)) \<and>
    (upCount t = downCount t \<longrightarrow> getTrendDominant games = label_stabil)"
proof -
  from assms obtain t where t: "analyzeTrendDirection games = Some t"
    by (simp add: analyzeTrendDirection_def)
  show ?thesis
    by (rule exI [of _ t]) (auto simp add: t getTrendDominant_def labels_distinct)
qed

theorem getTrendDominant_strict_witness:
  "[newGame 10 20, newGame 20 10] \<noteq> [] \<and>
   analyzeTrendDirection [newGame 10 20, newGame 20 10]
     = Some \<lparr>upCount = 1, downCount = 1, stableCount = 0\<rparr> \<and>
   getTrendDominant [newGame 10 20, newGame 20 10] = label_stabil"
proof -
  have ne: "[newGame 10 20, newGame 20 10] \<noteq> []" by simp
  have t: "analyzeTrendDirection [newGame 10 20, newGame 20 10]
     = Some \<lparr>upCount = 1, downCount = 1, stableCount = 0\<rparr>"
    by (simp add: analyzeTrendDirection_def getRecentGames_def maxMemoryWindow_def
          trendStep_def newGame_def calculateTrend_def)
  from getTrendDominant_strict [OF ne] t show ?thesis by auto
qed

subsection \<open>Rounding to a double\<close>

lemma pow2_powi: "pow2 e = 2 powi e"
  by (simp add: pow2_def power_int_def inverse_eq_divide power_one_over)

lemma pow2_pos [simp]: "0 < pow2 e"
  by (simp add: pow2_powi)

lemma pow2_nonzero [simp]: "pow2 e \<noteq> 0"
  by (simp add: pow2_powi)

lemma pow2_abs [simp]: "\<bar>pow2 e\<bar> = pow2 e"
  by (simp add: abs_of_pos)

lemma pow2_add: "pow2 (a + b) = pow2 a * pow2 b"
  by (simp add: pow2_powi power_int_add)

lemma pow2_mono: "a \<le> b \<Longrightarrow> pow2 a \<le> pow2 b"
  by (simp add: pow2_powi power_int_increasing)

lemma pow2_strict_mono: "a < b \<Longrightarrow> pow2 a < pow2 b"
  by (simp add: pow2_powi power_int_strict_increasing)

lemma pow2_nat: "pow2 (int n) = 2 ^ n"
  by (simp add: pow2_def)

lemma pow2_0 [simp]: "pow2 0 = 1"
  by (simp add: pow2_def)

lemma pow2_Suc: "pow2 (e + 1) = 2 * pow2 e"
  by (simp add: pow2_powi power_int_add_1)

lemma pow2_less_iff: "pow2 a < pow2 b \<longleftrightarrow> a < b"
  by (metis pow2_mono pow2_strict_mono not_less)

lemma pow2_split_52: "pow2 e = pow2 (e - 52) * 2 ^ 52"
proof -
  have "e = (e - 52) + 52" by simp
  then have "pow2 e = pow2 ((e - 52) + 52)" by (simp only:)
  also have "\<dots> = pow2 (e - 52) * pow2 52" by (rule pow2_add)
  also have "pow2 52 = 2 ^ 52" by (simp add: pow2_def)
  finally show ?thesis .
qed

lemma pow2_split_53: "pow2 (e + 1) = pow2 (e - 52) * 2 ^ 53"
proof -
  have "e + 1 = (e - 52) + 53" by simp
  then have "pow2 (e + 1) = pow2 ((e - 52) + 53)" by (simp only:)
  also have "\<dots> = pow2 (e - 52) * pow2 53" by (rule pow2_add)
  also have "pow2 53 = 2 ^ 53" by (simp add: pow2_def)
  finally show ?thesis .
qed

lemma ilog2_bounds:
  assumes "0 < x"
  shows "pow2 (ilog2 x) \<le> x \<and> x < pow2 (ilog2 x + 1)"
proof (cases "1 \<le> x")
  case True
  let ?n = "\<lfloor>x\<rfloor>"
  from True have n: "0 < ?n" by simp
  from bitlen_bounds [OF n] have b: "2 ^ nat (bitlen ?n - 1) \<le> ?n" "?n < 2 ^ nat (bitlen ?n)"
    by auto
  from n have bl: "1 \<le> bitlen ?n" by (simp add: bitlen_alt_def)
  have "pow2 (bitlen ?n - 1) = of_int (2 ^ nat (bitlen ?n - 1))"
    using bl by (simp add: pow2_def)
  also have "\<dots> \<le> of_int ?n" using b(1) by (simp only: of_int_le_iff)
  also have "\<dots> \<le> x" by simp
  finally have lo: "pow2 (bitlen ?n - 1) \<le> x" .
  from b(2) have "?n + 1 \<le> 2 ^ nat (bitlen ?n)" by simp
  then have "of_int (?n + 1) \<le> (of_int (2 ^ nat (bitlen ?n)) :: rat)" by (simp only: of_int_le_iff)
  moreover have "x < of_int (?n + 1)" using floor_correct [of x] by simp
  ultimately have "x < of_int (2 ^ nat (bitlen ?n))" by simp
  also have "\<dots> = pow2 (bitlen ?n)" using bl by (simp add: pow2_def)
  finally have hi: "x < pow2 (bitlen ?n - 1 + 1)" by simp
  from lo hi True show ?thesis by (simp add: ilog2_def)
next
  case False
  let ?y = "1 / x"
  let ?n = "\<lceil>?y\<rceil> - 1"
  from False assms have y: "1 < ?y" by simp
  then have n: "0 < ?n" by simp
  from bitlen_bounds [OF n] have b: "2 ^ nat (bitlen ?n - 1) \<le> ?n" "?n < 2 ^ nat (bitlen ?n)"
    by auto
  from n have bl: "1 \<le> bitlen ?n" by (simp add: bitlen_alt_def)
  have "?y \<le> of_int (?n + 1)" by simp
  also have "\<dots> \<le> of_int (2 ^ nat (bitlen ?n))" using b(2) by (simp only: of_int_le_iff)
  finally have y_hi: "?y \<le> 2 ^ nat (bitlen ?n)" by simp
  have "(of_int (2 ^ nat (bitlen ?n - 1)) :: rat) \<le> of_int ?n" using b(1) by (simp only: of_int_le_iff)
  also have "\<dots> < ?y" using ceiling_correct [of ?y] by simp
  finally have y_lo: "2 ^ nat (bitlen ?n - 1) < ?y" by simp
  have lo: "pow2 (- bitlen ?n) \<le> x"
  proof -
    from y_hi assms have "1 \<le> x * 2 ^ nat (bitlen ?n)" by (simp add: field_simps)
    then show ?thesis using bl by (simp add: pow2_def field_simps)
  qed
  have hi: "x < pow2 (- bitlen ?n + 1)"
  proof (cases "bitlen ?n = 1")
    case True
    with False show ?thesis by simp
  next
    case F: False
    with bl have g: "\<not> 0 \<le> - bitlen ?n + 1" by simp
    have e: "nat (- (- bitlen ?n + 1)) = nat (bitlen ?n - 1)" by simp
    from y_lo assms have "x * 2 ^ nat (bitlen ?n - 1) < 1" by (simp add: field_simps)
    then show ?thesis unfolding pow2_def using g e by (simp add: field_simps)
  qed
  from lo hi False show ?thesis by (simp add: ilog2_def)
qed

lemma ilog2_unique:
  assumes "pow2 e \<le> x" "x < pow2 (e + 1)"
  shows "ilog2 x = e"
proof -
  from assms(1) have x: "0 < x" using pow2_pos [of e] by linarith
  note b = ilog2_bounds [OF x]
  from b assms have "pow2 e < pow2 (ilog2 x + 1)" by linarith
  then have 1: "e < ilog2 x + 1" by (simp add: pow2_less_iff)
  from b assms have "pow2 (ilog2 x) < pow2 (e + 1)" by linarith
  then have 2: "ilog2 x < e + 1" by (simp add: pow2_less_iff)
  from 1 2 show ?thesis by simp
qed

lemma ilog2_mono:
  assumes "0 < x" "x \<le> y"
  shows "ilog2 x \<le> ilog2 y"
proof -
  from assms have y: "0 < y" by simp
  from ilog2_bounds [OF assms(1)] ilog2_bounds [OF y] assms(2)
  have "pow2 (ilog2 x) < pow2 (ilog2 y + 1)" by linarith
  then show ?thesis by (simp add: pow2_less_iff)
qed

lemma rne_int [simp]: "rne (of_int n) = n"
  by (simp add: rne_def)

lemma rne_bound: "\<bar>of_int (rne y) - y\<bar> \<le> 1 / 2"
proof -
  have a: "of_int \<lfloor>y\<rfloor> \<le> y" "y < of_int \<lfloor>y\<rfloor> + 1" using floor_correct [of y] by simp_all
  consider "y - of_int \<lfloor>y\<rfloor> < 1 / 2" | "1 / 2 < y - of_int \<lfloor>y\<rfloor>" | "y - of_int \<lfloor>y\<rfloor> = 1 / 2"
    by linarith
  then show ?thesis
  proof cases
    case 1
    then have "rne y = \<lfloor>y\<rfloor>" by (simp add: rne_def Let_def)
    with a 1 show ?thesis by (simp add: abs_le_iff)
  next
    case 2
    then have "rne y = \<lfloor>y\<rfloor> + 1" by (simp add: rne_def Let_def)
    with a 2 show ?thesis by (simp add: abs_le_iff)
  next
    case 3
    then have "rne y = \<lfloor>y\<rfloor> \<or> rne y = \<lfloor>y\<rfloor> + 1" by (simp add: rne_def Let_def)
    with a 3 show ?thesis by (auto simp add: abs_le_iff)
  qed
qed

lemma rne_mono:
  assumes "x \<le> y"
  shows "rne x \<le> rne y"
proof (cases "\<lfloor>x\<rfloor> = \<lfloor>y\<rfloor>")
  case True
  with assms show ?thesis by (auto simp add: rne_def Let_def)
next
  case False
  with assms have "\<lfloor>x\<rfloor> + 1 \<le> \<lfloor>y\<rfloor>" using floor_mono [OF assms] by simp
  moreover have "rne x \<le> \<lfloor>x\<rfloor> + 1" by (simp add: rne_def Let_def)
  moreover have "\<lfloor>y\<rfloor> \<le> rne y" by (simp add: rne_def Let_def)
  ultimately show ?thesis by linarith
qed

lemma rne_ge_int: "of_int n \<le> y \<Longrightarrow> n \<le> rne y"
  using rne_mono [of "of_int n" y] by simp

lemma rne_le_int: "y \<le> of_int n \<Longrightarrow> rne y \<le> n"
  using rne_mono [of y "of_int n"] by simp

lemma fl_0 [simp]: "fl 0 = 0"
  by (simp add: fl_def)

lemma fl_minus: "fl (- x) = - fl x"
  by (simp add: fl_def Let_def)

lemma fl_pos_eq:
  "0 < x \<Longrightarrow> fl x = of_int (rne (x / pow2 (ilog2 x - 52))) * pow2 (ilog2 x - 52)"
  by (simp add: fl_def Let_def)

lemma scaled_bounds:
  assumes "0 < x"
  shows "2 ^ 52 \<le> x / pow2 (ilog2 x - 52)" "x / pow2 (ilog2 x - 52) < 2 ^ 53"
proof -
  note b = ilog2_bounds [OF assms]
  have e: "pow2 (ilog2 x) = pow2 (ilog2 x - 52) * 2 ^ 52"
    by (rule pow2_split_52)
  have e1: "pow2 (ilog2 x + 1) = pow2 (ilog2 x - 52) * 2 ^ 53"
    by (rule pow2_split_53)
  from b e show "2 ^ 52 \<le> x / pow2 (ilog2 x - 52)"
    by (simp add: pos_le_divide_eq mult.commute)
  from b e1 show "x / pow2 (ilog2 x - 52) < 2 ^ 53"
    by (simp add: pos_divide_less_eq mult.commute)
qed

lemma rne_scaled_bounds:
  assumes "0 < x"
  shows "2 ^ 52 \<le> rne (x / pow2 (ilog2 x - 52))" "rne (x / pow2 (ilog2 x - 52)) \<le> 2 ^ 53"
proof -
  note s = scaled_bounds [OF assms]
  show "2 ^ 52 \<le> rne (x / pow2 (ilog2 x - 52))"
    using rne_ge_int [of "2 ^ 52" "x / pow2 (ilog2 x - 52)"] s(1) by simp
  show "rne (x / pow2 (ilog2 x - 52)) \<le> 2 ^ 53"
    using rne_le_int [of "x / pow2 (ilog2 x - 52)" "2 ^ 53"] s(2) by simp
qed

lemma fl_pos_bounds:
  assumes "0 < x"
  shows "pow2 (ilog2 x) \<le> fl x" "fl x \<le> pow2 (ilog2 x + 1)"
proof -
  let ?u = "pow2 (ilog2 x - 52)"
  let ?m = "rne (x / ?u)"
  note r = rne_scaled_bounds [OF assms]
  have e: "pow2 (ilog2 x) = 2 ^ 52 * ?u"
    using pow2_split_52 [of "ilog2 x"] by (simp only: mult.commute)
  have e1: "pow2 (ilog2 x + 1) = 2 ^ 53 * ?u"
    using pow2_split_53 [of "ilog2 x"] by (simp only: mult.commute)
  have "(2 ^ 52 :: rat) \<le> of_int ?m" using r(1) by (metis of_int_le_iff of_int_numeral of_int_power)
  then have "2 ^ 52 * ?u \<le> of_int ?m * ?u" by (simp add: mult_right_mono)
  then show "pow2 (ilog2 x) \<le> fl x" by (simp only: e fl_pos_eq [OF assms])
  have "of_int ?m \<le> (2 ^ 53 :: rat)" using r(2) by (metis of_int_le_iff of_int_numeral of_int_power)
  then have "of_int ?m * ?u \<le> 2 ^ 53 * ?u" by (simp add: mult_right_mono)
  then show "fl x \<le> pow2 (ilog2 x + 1)" by (simp only: e1 fl_pos_eq [OF assms])
qed

lemma fl_pos: "0 < x \<Longrightarrow> 0 < fl x"
  using fl_pos_bounds(1) [of x] pow2_pos [of "ilog2 x"] by linarith

lemma fl_nonneg: "0 \<le> x \<Longrightarrow> 0 \<le> fl x"
  using fl_pos [of x] by (cases "x = 0") auto



lemma fl_mono_pos:
  assumes "0 < x" "x \<le> y"
  shows "fl x \<le> fl y"
proof -
  from assms have y: "0 < y" by simp
  show ?thesis
  proof (cases "ilog2 x = ilog2 y")
    case True
    have "x / pow2 (ilog2 y - 52) \<le> y / pow2 (ilog2 y - 52)"
      by (rule divide_right_mono) (simp_all add: assms(2) less_imp_le)
    from rne_mono [OF this]
    have "(of_int (rne (x / pow2 (ilog2 y - 52))) :: rat) \<le> of_int (rne (y / pow2 (ilog2 y - 52)))"
      by (simp only: of_int_le_iff)
    then show ?thesis
      by (simp add: fl_pos_eq [OF assms(1)] fl_pos_eq [OF y] True mult_right_mono)
  next
    case False
    with ilog2_mono [OF assms] have "ilog2 x + 1 \<le> ilog2 y" by simp
    from pow2_mono [OF this] fl_pos_bounds(2) [OF assms(1)] fl_pos_bounds(1) [OF y]
    show ?thesis by linarith
  qed
qed

lemma fl_mono:
  assumes "x \<le> y"
  shows "fl x \<le> fl y"
proof -
  consider "0 < x" | "x \<le> 0" "0 \<le> y" | "y < 0" using assms by linarith
  then show ?thesis
  proof cases
    case 1
    then show ?thesis using fl_mono_pos assms by simp
  next
    case 2
    have "fl x \<le> 0" using 2(1) fl_nonneg [of "- x"] by (simp add: fl_minus)
    with fl_nonneg [OF 2(2)] show ?thesis by linarith
  next
    case 3
    with assms have "0 < - y" "- y \<le> - x" by simp_all
    from fl_mono_pos [OF this] show ?thesis by (simp add: fl_minus)
  qed
qed

lemma pow2_53: "pow2 53 = 2 ^ 53"
  by (simp add: pow2_def)

lemma pow2_minus: "pow2 (- a) = 1 / pow2 a"
  by (simp add: pow2_powi power_int_minus_divide)

lemma pow2_diff: "pow2 (a - b) = pow2 a / pow2 b"
  using pow2_add [of a "- b"] by (simp add: pow2_minus)

lemma pow2_of_int: "0 \<le> a \<Longrightarrow> pow2 a = of_int (2 ^ nat a)"
  by (simp add: pow2_def)

lemma fl_repr_pos:
  assumes m: "0 < m" "m < 2 ^ 53"
  shows "fl (of_int m * pow2 k) = of_int m * pow2 k"
proof -
  let ?x = "of_int m * pow2 k :: rat"
  let ?e = "ilog2 ?x"
  have x: "0 < ?x" using m(1) by simp
  have "(of_int m :: rat) < 2 ^ 53" using m(2) by (metis of_int_less_iff of_int_numeral of_int_power)
  then have "?x < 2 ^ 53 * pow2 k" by (simp add: mult_strict_right_mono)
  also have "\<dots> = pow2 (53 + k)" by (simp only: pow2_add pow2_53)
  finally have "pow2 ?e < pow2 (53 + k)" using ilog2_bounds [OF x] by linarith
  then have "?e < 53 + k" by (simp add: pow2_less_iff)
  then have n: "0 \<le> k - (?e - 52)" by simp
  have "?x / pow2 (?e - 52) = of_int m * pow2 (k - (?e - 52))"
    by (simp add: pow2_diff)
  also have "\<dots> = of_int (m * 2 ^ nat (k - (?e - 52)))"
    by (simp add: pow2_of_int [OF n])
  finally have "rne (?x / pow2 (?e - 52)) = m * 2 ^ nat (k - (?e - 52))"
    by (simp only: rne_int)
  then have "fl ?x = of_int (m * 2 ^ nat (k - (?e - 52))) * pow2 (?e - 52)"
    by (simp only: fl_pos_eq [OF x])
  also have "\<dots> = of_int m * (pow2 (k - (?e - 52)) * pow2 (?e - 52))"
    by (simp add: pow2_of_int [OF n])
  also have "pow2 (k - (?e - 52)) * pow2 (?e - 52) = pow2 k"
    by (simp add: pow2_diff)
  finally show ?thesis .
qed

lemma fl_repr:
  assumes "\<bar>m\<bar> < 2 ^ 53"
  shows "fl (of_int m * pow2 k) = of_int m * pow2 k"
proof -
  consider "m = 0" | "0 < m" | "m < 0" by linarith
  then show ?thesis
  proof cases
    case 1
    then show ?thesis by simp
  next
    case 2
    with assms show ?thesis by (simp add: fl_repr_pos)
  next
    case 3
    with assms have "0 < - m" "- m < 2 ^ 53" by simp_all
    from fl_repr_pos [OF this, of k] show ?thesis
      using fl_minus [of "of_int m * pow2 k"] by simp
  qed
qed

lemma fl_of_int: "\<bar>n\<bar> < 2 ^ 53 \<Longrightarrow> fl (of_int n) = of_int n"
  using fl_repr [of n 0] by simp

lemma fl_of_nat: "n < 2 ^ 53 \<Longrightarrow> fl (of_nat n) = of_nat n"
  using fl_of_int [of "int n"] by simp

lemma fl_idem_pos:
  assumes "0 < x"
  shows "fl (fl x) = fl x"
proof -
  let ?u = "pow2 (ilog2 x - 52)"
  let ?m = "rne (x / ?u)"
  note r = rne_scaled_bounds [OF assms]
  have f: "fl x = of_int ?m * ?u" by (rule fl_pos_eq [OF assms])
  show ?thesis
  proof (cases "?m = 2 ^ 53")
    case True
    have "pow2 (ilog2 x - 51) = 2 * pow2 (ilog2 x - 52)"
      using pow2_Suc [of "ilog2 x - 52"] by simp
    then have "fl x = of_int (2 ^ 52) * pow2 (ilog2 x - 51)"
      unfolding f True by simp
    moreover have "fl (of_int (2 ^ 52) * pow2 (ilog2 x - 51))
        = of_int (2 ^ 52) * pow2 (ilog2 x - 51)"
      by (rule fl_repr) simp
    ultimately show ?thesis by simp
  next
    case False
    with r have "\<bar>?m\<bar> < 2 ^ 53" by simp
    from fl_repr [OF this, of "ilog2 x - 52"] f show ?thesis by simp
  qed
qed

lemma fl_idem [simp]: "fl (fl x) = fl x"
proof -
  consider "x = 0" | "0 < x" | "x < 0" by linarith
  then show ?thesis
  proof cases
    case 1
    then show ?thesis by simp
  next
    case 2
    then show ?thesis by (rule fl_idem_pos)
  next
    case 3
    then have "0 < - x" by simp
    from fl_idem_pos [OF this] show ?thesis by (simp add: fl_minus)
  qed
qed

lemma fl_err_pos:
  assumes "0 < x"
  shows "\<bar>fl x - x\<bar> \<le> x / 2 ^ 53"
proof -
  let ?u = "pow2 (ilog2 x - 52)"
  let ?m = "rne (x / ?u)"
  have u: "0 < ?u" by simp
  have u0: "?u \<noteq> 0" by simp
  have "fl x - x = (of_int ?m - x / ?u) * ?u"
    by (simp add: fl_pos_eq [OF assms] left_diff_distrib u0)
  then have "\<bar>fl x - x\<bar> = \<bar>of_int ?m - x / ?u\<bar> * ?u"
    by (simp add: abs_mult)
  also have "\<dots> \<le> 1 / 2 * ?u"
    using rne_bound [of "x / ?u"] u by (simp add: mult_right_mono)
  also have "\<dots> = pow2 (ilog2 x) / 2 ^ 53"
    by (simp add: pow2_split_52 [of "ilog2 x"])
  also have "\<dots> \<le> x / 2 ^ 53"
    using ilog2_bounds [OF assms] by (simp add: divide_right_mono)
  finally show ?thesis .
qed

lemma fl_err: "\<bar>fl x - x\<bar> \<le> \<bar>x\<bar> / 2 ^ 53"
proof -
  consider "x = 0" | "0 < x" | "x < 0" by linarith
  then show ?thesis
  proof cases
    case 1
    then show ?thesis by simp
  next
    case 2
    with fl_err_pos [OF 2] show ?thesis by simp
  next
    case 3
    then have "0 < - x" by simp
    from fl_err_pos [OF this] 3 show ?thesis by (simp add: fl_minus abs_minus_commute)
  qed
qed

lemma fl_le_repr: "x \<le> of_int n \<Longrightarrow> \<bar>n\<bar> < 2 ^ 53 \<Longrightarrow> fl x \<le> of_int n"
  using fl_mono [of x "of_int n"] by (simp add: fl_of_int)

lemma fl_ge_repr: "of_int n \<le> x \<Longrightarrow> \<bar>n\<bar> < 2 ^ 53 \<Longrightarrow> of_int n \<le> fl x"
  using fl_mono [of "of_int n" x] by (simp add: fl_of_int)

subsection \<open>Transition percentages\<close>

lemma percentOf_Count:
  "0 < t \<Longrightarrow>
   percentOf (Count c) (Count t)
     = Fin (of_int \<lfloor>fl (fl (of_nat c / of_nat t) * 100) + 1 / 2\<rfloor>)"
  by (simp add: percentOf_def)

lemma percent_error:
  assumes t: "0 < t" and c: "c \<le> t"
  shows "\<bar>fl (fl (of_nat c / of_nat t) * 100) - 100 * (of_nat c / of_nat t)\<bar> \<le> 200 / 2 ^ 53"
proof -
  define x :: rat where "x = of_nat c / of_nat t"
  define y where "y = fl x"
  define z where "z = fl (y * 100)"
  have x0: "0 \<le> x" by (simp add: x_def)
  have x1: "x \<le> 1" using t c by (simp add: x_def)
  have y0: "0 \<le> y" unfolding y_def using fl_nonneg [OF x0] .
  have y1: "y \<le> 1" unfolding y_def using fl_le_repr [of x 1] x1 by simp
  have "\<bar>y - x\<bar> \<le> \<bar>x\<bar> / 2 ^ 53" unfolding y_def by (rule fl_err)
  also have "\<bar>x\<bar> / 2 ^ 53 \<le> 1 / 2 ^ 53"
    by (rule divide_right_mono) (use x0 x1 in simp_all)
  finally have e1: "\<bar>y - x\<bar> \<le> 1 / 2 ^ 53" .
  have "\<bar>z - y * 100\<bar> \<le> \<bar>y * 100\<bar> / 2 ^ 53" unfolding z_def by (rule fl_err)
  also have "\<bar>y * 100\<bar> / 2 ^ 53 \<le> 100 / 2 ^ 53"
    by (rule divide_right_mono) (use y0 y1 in simp_all)
  finally have e2: "\<bar>z - y * 100\<bar> \<le> 100 / 2 ^ 53" .
  from e1 e2 have "\<bar>z - 100 * x\<bar> \<le> 200 / 2 ^ 53" by linarith
  then show ?thesis by (simp only: z_def y_def x_def)
qed

lemma nearest_integer:
  fixes v x eps :: rat and t :: nat and n :: int
  assumes t: "0 < t"
    and x: "x * of_nat t = of_int n"
    and eps: "2 * of_nat t * eps < 1"
    and v: "\<bar>v - x\<bar> \<le> eps"
  shows "\<bar>of_int \<lfloor>v + 1 / 2\<rfloor> - x\<bar> \<le> 1 / 2"
proof -
  define p where "p = \<lfloor>v + 1 / 2\<rfloor>"
  define T :: rat where "T = of_nat t"
  define d where "d = 2 * int t * p - 2 * n"
  have T: "0 < T" using t by (simp add: T_def)
  have p: "of_int p \<le> v + 1 / 2" "v + 1 / 2 < of_int p + 1"
    unfolding p_def using floor_correct [of "v + 1 / 2"] by simp_all
  from p v have b: "\<bar>of_int p - x\<bar> \<le> 1 / 2 + eps" by linarith
  have dx: "(of_int d :: rat) = 2 * T * (of_int p - x)"
    using x by (simp add: d_def T_def algebra_simps)
  have "\<bar>of_int d :: rat\<bar> = 2 * T * \<bar>of_int p - x\<bar>"
    unfolding dx using T by (simp add: abs_mult)
  also have "\<dots> \<le> 2 * T * (1 / 2 + eps)"
    by (rule mult_left_mono [OF b]) (use T in simp)
  also have "\<dots> = T + 2 * T * eps" by (simp add: algebra_simps)
  also have "\<dots> < T + 1" using eps by (simp add: T_def)
  finally have "(of_int \<bar>d\<bar> :: rat) < of_int (int t + 1)" by (simp add: T_def)
  then have "\<bar>d\<bar> < int t + 1" by (simp only: of_int_less_iff)
  then have "\<bar>d\<bar> \<le> int t" by simp
  then have "(of_int \<bar>d\<bar> :: rat) \<le> of_int (int t)" by (simp only: of_int_le_iff)
  then have "\<bar>of_int d :: rat\<bar> \<le> T" by (simp add: T_def)
  then have "2 * T * \<bar>of_int p - x\<bar> \<le> T"
    unfolding dx using T by (simp add: abs_mult)
  then have "T * (2 * \<bar>of_int p - x\<bar>) \<le> T * 1" by (simp add: algebra_simps)
  then have "2 * \<bar>of_int p - x\<bar> \<le> 1" using T by (simp only: mult_le_cancel_left_pos)
  then show ?thesis unfolding p_def by simp
qed

lemma percentOf_nearest:
  assumes t: "0 < t" and c: "c \<le> t" and b: "t < 2 ^ 32"
  shows "\<exists>p. percentOf (Count c) (Count t) = Fin (of_int p) \<and>
             \<bar>of_int p - 100 * (of_nat c / of_nat t)\<bar> \<le> (1 / 2 :: rat)"
proof -
  have x: "100 * (of_nat c / of_nat t) * of_nat t = (of_int (100 * int c) :: rat)"
    using t by simp
  have "(of_nat t :: rat) < of_nat (2 ^ 32)" using b by (simp only: of_nat_less_iff)
  then have "(of_nat t :: rat) < 2 ^ 32" by simp
  then have "2 * of_nat t * (200 / 2 ^ 53) < (2 * 2 ^ 32 * (200 / 2 ^ 53) :: rat)"
    by simp
  also have "\<dots> < 1" by simp
  finally have eps: "2 * of_nat t * (200 / 2 ^ 53) < (1 :: rat)" .
  from nearest_integer [OF t x eps percent_error [OF t c]]
  show ?thesis by (simp add: percentOf_Count [OF t])
qed

lemma transitionCount_sum_le:
  "length (filter (\<lambda>i. p i \<and> f i = LOW) xs) + length (filter (\<lambda>i. p i \<and> f i = MID) xs)
   + length (filter (\<lambda>i. p i \<and> f i = HIGH) xs) + length (filter (\<lambda>i. p i \<and> f i = EXTREME) xs)
   \<le> length xs"
  by (induction xs) auto

lemma rowTotal_le: "rowTotal games A \<le> length games - 1"
  using transitionCount_sum_le [of "\<lambda>i. state2 (games ! (i - 1)) = A" "\<lambda>i. state1 (games ! i)"
      "[1..<length games]"]
  by (simp add: rowTotal_def transitionCount_def states_def)

lemma transitionCount_le_rowTotal:
  "B \<in> set states \<Longrightarrow> transitionCount games A B \<le> rowTotal games A"
  by (auto simp add: rowTotal_def states_def)

lemma row_explicit:
  assumes k: "map fst row = states"
    and v: "\<forall>B\<in>set states. map_of row B = Some (f B)"
  shows "row = map (\<lambda>B. (B, f B)) states"
proof -
  from k obtain v1 v2 v3 v4 where
    r: "row = [(LOW, v1), (MID, v2), (HIGH, v3), (EXTREME, v4)]"
    by (auto simp add: states_def map_eq_Cons_conv)
  from v show ?thesis unfolding r by (simp add: states_def)
qed

lemma getStateTransitionProbability_known:
  assumes len: "2 \<le> length games" and known: "knownStates games" and A: "A \<in> set states"
  shows "getStateTransitionProbability games A =
           (if rowTotal games A = 0 then Inr None
            else Inr (Some (map (\<lambda>B. (B, percentOf (Count (transitionCount games A B))
                                              (Count (rowTotal games A)))) states)))"
proof -
  from buildTransitionMatrix_known [OF len known] obtain m where
    b: "buildTransitionMatrix games = Inr (Some m)"
    and rows: "\<forall>A\<in>set states. \<exists>row. map_of m A = Some row \<and> map fst row = states"
    and cells: "\<forall>A\<in>set states. \<forall>B\<in>set states.
                  cell m A B = Some (Count (transitionCount games A B))"
    by blast
  from rows A obtain row where row: "map_of m A = Some row" "map fst row = states" by blast
  from cells A row(1) have "\<forall>B\<in>set states. map_of row B = Some (Count (transitionCount games A B))"
    by (auto simp add: cell_def)
  from row_explicit [OF row(2) this]
  have r: "row = map (\<lambda>B. (B, Count (transitionCount games A B))) states" .
  have t: "foldl count_add (Count 0) (map snd row) = Count (rowTotal games A)"
    unfolding r by (simp add: states_def rowTotal_def)
  show ?thesis
    unfolding getStateTransitionProbability_def b
    by (simp add: row(1) t Let_def) (simp add: r states_def)
qed

lemma getStateTransitionProbability_short:
  "length games < 2 \<Longrightarrow> getStateTransitionProbability games A = Inr None"
  by (simp add: getStateTransitionProbability_def buildTransitionMatrix_def)

lemma nearest_is_round:
  fixes x :: rat
  assumes "\<bar>of_int p - x\<bar> \<le> 1 / 2"
  shows "p = \<lfloor>x + 1 / 2\<rfloor> \<or> of_int p = x - 1 / 2"
proof (cases "of_int p = x - 1 / 2")
  case True
  then show ?thesis by simp
next
  case False
  with assms have "of_int p \<le> x + 1 / 2" "x + 1 / 2 < of_int p + 1" by linarith+
  then have "\<lfloor>x + 1 / 2\<rfloor> = p" by (simp add: floor_unique)
  then show ?thesis by simp
qed

text \<open>
  C4, as stated, gives every cell as \<open>round(100 * count / rowTotal)\<close>. The code rounds
  the double product \<open>(count / total) * 100\<close>. In \<open>tieLog\<close> the row of LOW holds 23 of 40
  transitions: \<open>100 * 23 / 40\<close> is 57.5, which rounds to 58. But \<open>23 / 40\<close> is not a
  double: \<open>23 / 40 * 2^52\<close> is 2589569785738035.2, so the quotient is the double
  \<open>2589569785738035 / 2^52\<close>, just below 0.575. Its product with 100 is
  \<open>8092405580431359.375 / 2^47\<close>, which rounds to the double \<open>8092405580431359 / 2^47\<close>,
  one unit in the last place below \<open>57.5 = 8092405580431360 / 2^47\<close>
  (JavaScript prints it as 57.49999999999999). \<open>Math.round\<close> of it is 57.
  The claim also lets the method return \<open>null\<close> whenever the row total is 0, whatever
  \<open>fromState\<close> is: on the valid log \<open>thirdsLog\<close> no transition leaves \<open>UNKNOWN\<close>, yet for
  that \<open>fromState\<close> the method throws, the matrix having no such row.
\<close>

theorem tie_percentage_rounds_down:
  "validLog tieLog \<and> length tieLog = 41 \<and>
   transitionCount tieLog LOW LOW = 23 \<and> rowTotal tieLog LOW = 40 \<and>
   fl (23 / 40) = 2589569785738035 / 2 ^ 52 \<and>
   fl (fl (23 / 40) * 100) = 8092405580431359 / 2 ^ 47 \<and>
   (115 / 2 :: rat) = 8092405580431360 / 2 ^ 47 \<and>
   getStateTransitionProbability tieLog LOW =
     Inr (Some [(LOW, Fin 57), (MID, Fin 43), (HIGH, Fin 0), (EXTREME, Fin 0)]) \<and>
   jround (Fin (100 * of_nat (transitionCount tieLog LOW LOW) / of_nat (rowTotal tieLog LOW)))
     = Fin 58 \<and>
   validLog thirdsLog \<and> 2 \<le> length thirdsLog \<and> rowTotal thirdsLog UNKNOWN = 0 \<and>
   getStateTransitionProbability thirdsLog UNKNOWN = Inl TypeError"
  by code_simp

text \<open>
  C4, amended. On a log of fewer than 2 rounds \<open>getStateTransitionProbability\<close> returns
  \<open>null\<close> (the matrix is \<open>null\<close>). On a log of at least 2 rounds it throws for a
  \<open>fromState\<close> that is not one of the four states. On a log of at least 2 rounds whose
  stored states are all among the four, and for a \<open>fromState\<close> among the four: it
  returns \<open>null\<close> when the total of the row is 0; otherwise (the log being shorter than
  \<open>2^32\<close>, as every JavaScript array) it returns the four states in order, the cell of
  \<open>B\<close> being \<open>Math.round\<close> of the double product \<open>(count / total) * 100\<close> of its own
  count and the row total: an integer that equals \<open>100 * count / total\<close> rounded half
  up, or, only when that value is exactly halfway between two integers, possibly the
  integer below it. The cells are rounded one by one and nothing corrects their sum:
  the counts 1, 1, 1, 0 of \<open>thirdsLog\<close> give 33, 33, 33, 0.
\<close>

theorem getStateTransitionProbability_spec:
  "(length games < 2 \<longrightarrow> getStateTransitionProbability games A = Inr None) \<and>
   (2 \<le> length games \<and> A \<notin> set states \<longrightarrow>
      getStateTransitionProbability games A = Inl TypeError) \<and>
   (2 \<le> length games \<and> knownStates games \<and> A \<in> set states \<and> rowTotal games A = 0 \<longrightarrow>
      getStateTransitionProbability games A = Inr None) \<and>
   (2 \<le> length games \<and> length games < 2 ^ 32 \<and> knownStates games \<and> A \<in> set states \<and>
    rowTotal games A \<noteq> 0 \<longrightarrow>
      (\<exists>probs. getStateTransitionProbability games A = Inr (Some probs) \<and>
         map fst probs = states \<and>
         (\<forall>B\<in>set states. \<exists>p.
            map_of probs B = Some (Fin (of_int p)) \<and>
            Fin (of_int p)
              = percentOf (Count (transitionCount games A B)) (Count (rowTotal games A)) \<and>
            (p = \<lfloor>100 * (of_nat (transitionCount games A B) / of_nat (rowTotal games A))
                    + 1 / 2 :: rat\<rfloor> \<or>
             of_int p = 100 * (of_nat (transitionCount games A B) / of_nat (rowTotal games A))
                    - (1 / 2 :: rat))))) \<and>
   getStateTransitionProbability thirdsLog LOW =
     Inr (Some [(LOW, Fin 33), (MID, Fin 33), (HIGH, Fin 33), (EXTREME, Fin 0)])"
proof -
  have zero: "getStateTransitionProbability games A = Inr None"
    if "2 \<le> length games \<and> knownStates games \<and> A \<in> set states \<and> rowTotal games A = 0"
    using that getStateTransitionProbability_known [of games A] by simp
  have cells: "\<exists>probs. getStateTransitionProbability games A = Inr (Some probs) \<and>
         map fst probs = states \<and>
         (\<forall>B\<in>set states. \<exists>p.
            map_of probs B = Some (Fin (of_int p)) \<and>
            Fin (of_int p)
              = percentOf (Count (transitionCount games A B)) (Count (rowTotal games A)) \<and>
            (p = \<lfloor>100 * (of_nat (transitionCount games A B) / of_nat (rowTotal games A))
                    + 1 / 2 :: rat\<rfloor> \<or>
             of_int p = 100 * (of_nat (transitionCount games A B) / of_nat (rowTotal games A))
                    - (1 / 2 :: rat)))"
    if h: "2 \<le> length games \<and> length games < 2 ^ 32 \<and> knownStates games \<and> A \<in> set states \<and>
           rowTotal games A \<noteq> 0"
  proof -
    let ?T = "rowTotal games A"
    let ?probs = "map (\<lambda>B. (B, percentOf (Count (transitionCount games A B)) (Count ?T))) states"
    from h have T: "0 < ?T" by simp
    from rowTotal_le [of games A] have "?T \<le> length games" by simp
    moreover from h have "length games < 2 ^ 32" by blast
    ultimately have bound: "?T < 2 ^ 32" by (rule le_less_trans)
    from h have g: "getStateTransitionProbability games A = Inr (Some ?probs)"
      using getStateTransitionProbability_known [of games A] by simp
    have k: "map fst ?probs = states" by (simp add: o_def)
    have c: "\<exists>p. map_of ?probs B = Some (Fin (of_int p)) \<and>
            Fin (of_int p) = percentOf (Count (transitionCount games A B)) (Count ?T) \<and>
            (p = \<lfloor>100 * (of_nat (transitionCount games A B) / of_nat ?T) + 1 / 2 :: rat\<rfloor> \<or>
             of_int p = 100 * (of_nat (transitionCount games A B) / of_nat ?T) - (1 / 2 :: rat))"
      if B: "B \<in> set states" for B
    proof -
      from percentOf_nearest [OF T transitionCount_le_rowTotal [OF B] bound] obtain p where
        p: "percentOf (Count (transitionCount games A B)) (Count ?T) = Fin (of_int p)"
          "\<bar>of_int p - 100 * (of_nat (transitionCount games A B) / of_nat ?T)\<bar> \<le> (1 / 2 :: rat)"
        by blast
      have "map_of ?probs B = Some (percentOf (Count (transitionCount games A B)) (Count ?T))"
        using B by (auto simp add: states_def)
      with p nearest_is_round [OF p(2)] show ?thesis by auto
    qed
    from g k c show ?thesis by blast
  qed
  have ex: "getStateTransitionProbability thirdsLog LOW =
     Inr (Some [(LOW, Fin 33), (MID, Fin 33), (HIGH, Fin 33), (EXTREME, Fin 0)])"
    by code_simp
  have unknown: "getStateTransitionProbability games A = Inl TypeError"
    if "2 \<le> length games \<and> A \<notin> set states"
  proof -
    from that have "A = UNKNOWN" by (cases A) (simp_all add: states_def)
    with that getStateTransitionProbability_UNKNOWN [of games] show ?thesis by simp
  qed
  from getStateTransitionProbability_short [of games A] unknown zero cells ex
  show ?thesis by blast
qed

theorem getStateTransitionProbability_spec_witness:
  "length ([] :: game list) < 2 \<and> getStateTransitionProbability [] LOW = Inr None \<and>
   2 \<le> length thirdsLog \<and> length thirdsLog < 2 ^ 32 \<and> knownStates thirdsLog \<and>
   LOW \<in> set states \<and> EXTREME \<in> set states \<and>
   rowTotal thirdsLog LOW \<noteq> 0 \<and> rowTotal thirdsLog EXTREME = 0 \<and>
   getStateTransitionProbability thirdsLog EXTREME = Inr None \<and>
   UNKNOWN \<notin> set states \<and>
   getStateTransitionProbability thirdsLog UNKNOWN = Inl TypeError \<and>
   (\<exists>probs. getStateTransitionProbability thirdsLog LOW = Inr (Some probs) \<and>
      map fst probs = states \<and>
      map_of probs MID = Some (percentOf (Count 1) (Count 3)))"
proof -
  have u: "UNKNOWN \<notin> set states" by (simp add: states_def)
  have e: "length ([] :: game list) < 2" by simp
  have l: "2 \<le> length thirdsLog" "length thirdsLog < 2 ^ 32" by (simp_all add: thirdsLog_def)
  have k: "knownStates thirdsLog" by code_simp
  have s: "LOW \<in> set states" "EXTREME \<in> set states" "MID \<in> set states"
    by (simp_all add: states_def)
  have c: "transitionCount thirdsLog LOW MID = 1" "rowTotal thirdsLog LOW = 3"
    "rowTotal thirdsLog EXTREME = 0"
    by code_simp+
  then have r: "rowTotal thirdsLog LOW \<noteq> 0" by simp
  from getStateTransitionProbability_spec [of "[]" LOW] e
  have n: "getStateTransitionProbability [] LOW = Inr None" by blast
  from getStateTransitionProbability_spec [of thirdsLog EXTREME] l(1) k s(2) c(3)
  have z: "getStateTransitionProbability thirdsLog EXTREME = Inr None" by blast
  from getStateTransitionProbability_spec [of thirdsLog UNKNOWN] l(1) u
  have t: "getStateTransitionProbability thirdsLog UNKNOWN = Inl TypeError" by blast
  from getStateTransitionProbability_spec [of thirdsLog LOW] l k s(1) r obtain probs where
    p: "getStateTransitionProbability thirdsLog LOW = Inr (Some probs)" "map fst probs = states"
      "\<forall>B\<in>set states. \<exists>p. map_of probs B = Some (Fin (of_int p)) \<and>
         Fin (of_int p)
           = percentOf (Count (transitionCount thirdsLog LOW B)) (Count (rowTotal thirdsLog LOW))"
    by blast
  from bspec [OF p(3) s(3)] obtain q where
    "map_of probs MID = Some (Fin (of_int q))"
    "Fin (of_int q)
       = percentOf (Count (transitionCount thirdsLog LOW MID)) (Count (rowTotal thirdsLog LOW))"
    by blast
  then have "map_of probs MID = Some (percentOf (Count 1) (Count 3))"
    by (simp only: c)
  with p(1,2) have "\<exists>probs. getStateTransitionProbability thirdsLog LOW = Inr (Some probs) \<and>
      map fst probs = states \<and> map_of probs MID = Some (percentOf (Count 1) (Count 3))"
    by blast
  with e n l k s(1,2) r c(3) z u t show ?thesis by blast
qed

subsection \<open>Prediction\<close>

lemma getState_known: "6 \<le> r \<Longrightarrow> r \<le> 54 \<Longrightarrow> getState r \<in> set states"
  by (simp add: getState_def states_def)

lemma validGame_fields:
  "validGame g \<Longrightarrow>
   state1 g \<in> set states \<and> state2 g \<in> set states \<and> 6 \<le> roll2 g \<and> roll2 g \<le> 54"
proof -
  assume v: "validGame g"
  then have g: "g = newGame (roll1 g) (roll2 g)"
    and r: "6 \<le> roll1 g" "roll1 g \<le> 54" "6 \<le> roll2 g" "roll2 g \<le> 54"
    by (simp_all add: validGame_def)
  have "state1 g = getState (roll1 g)" "state2 g = getState (roll2 g)"
    by (subst g, simp add: newGame_def)+
  with r show ?thesis by (simp add: getState_known)
qed

lemma validLog_knownStates: "validLog games \<Longrightarrow> knownStates games"
  by (auto simp add: validLog_def knownStates_def list_all_iff dest: validGame_fields)

lemma validLog_member:
  "validLog games \<Longrightarrow> g \<in> set games \<Longrightarrow>
   state2 g \<in> set states \<and> 6 \<le> roll2 g \<and> roll2 g \<le> 54"
  by (auto simp add: validLog_def list_all_iff dest: validGame_fields)

lemma set_getRecentGames: "set (getRecentGames maxMemoryWindow games) \<subseteq> set games"
  by (simp add: getRecentGames_drop set_drop_subset)

lemma getRecentGames_nonempty: "games \<noteq> [] \<Longrightarrow> getRecentGames maxMemoryWindow games \<noteq> []"
  by (cases games) (auto simp add: getRecentGames_drop)

lemma getStateDominance_explicit:
  assumes ne: "games \<noteq> []" and known: "\<forall>g\<in>set games. state2 g \<in> set states"
  shows "getStateDominance games =
           map (\<lambda>A. (A, Count (length (filter (\<lambda>g. state2 g = A)
                                          (getRecentGames maxMemoryWindow games))))) states"
proof -
  let ?init = "[(LOW, Count 0), (MID, Count 0), (HIGH, Count 0), (EXTREME, Count 0)]"
  have "\<forall>g\<in>set (getRecentGames maxMemoryWindow games). state2 g \<in> fst ` set ?init"
    using known set_getRecentGames [of games] by (auto simp add: states_def)
  from foldl_stateCounts_keys [OF this] ne
  have k: "map fst (getStateDominance games) = states"
    by (simp add: getStateDominance_def states_def)
  from getStateDominance_window [OF ne]
  have "\<forall>A\<in>set states. map_of (getStateDominance games) A =
          Some (Count (length (filter (\<lambda>g. state2 g = A) (getRecentGames maxMemoryWindow games))))"
    by blast
  from row_explicit [OF k this] show ?thesis .
qed

lemma state_counts_positive:
  assumes "w \<noteq> []" and "\<forall>g\<in>set w. state2 g \<in> set states"
  shows "0 < length (filter (\<lambda>g. state2 g = LOW) w) + length (filter (\<lambda>g. state2 g = MID) w)
           + length (filter (\<lambda>g. state2 g = HIGH) w) + length (filter (\<lambda>g. state2 g = EXTREME) w)"
proof -
  from assms obtain g rest where w: "w = g # rest" by (cases w) auto
  with assms(2) have "state2 g \<in> set states" by simp
  then show ?thesis unfolding w by (auto simp add: states_def)
qed

lemma lit_Fin: "lit x = Fin (fl x)"
  by (simp add: lit_def)

lemma add_term:
  assumes "0 \<le> c" "0 \<le> r"
  shows "\<exists>k'. jadd (Fin k) (jmul (lit c) (Fin r)) = Fin k' \<and> fl k \<le> k' \<and> fl k' = k'"
proof -
  have "0 \<le> fl c * r" using fl_nonneg [OF assms(1)] assms(2) by simp
  then have "0 \<le> fl (fl c * r)" by (rule fl_nonneg)
  then have "fl k \<le> fl (k + fl (fl c * r))" by (intro fl_mono) simp
  then show ?thesis by (simp add: lit_Fin)
qed

lemma ratio_nonneg:
  assumes "0 \<le> q" "0 < T"
  shows "\<exists>r. orZero (jdiv (Fin q) (Fin T)) = Fin r \<and> 0 \<le> r"
proof -
  have "0 \<le> fl (q / T)" using assms by (intro fl_nonneg) simp
  then show ?thesis using assms(2) by (auto simp add: orZero_def)
qed

lemma trendComponent_start:
  "\<exists>k b. trendComponent t (Fin 0, Fin 0) = (Fin k, Fin b) \<and> 0 \<le> k \<and> 0 \<le> b \<and>
         fl k = k \<and> fl b = b \<and>
         (fl (fl (25 / 100) * fl (6 / 10)) \<le> k \<or> fl (fl (25 / 100) * fl (6 / 10)) \<le> b)"
proof -
  have "0 \<le> fl (fl (25 / 100) * fl (6 / 10))"
    by (intro fl_nonneg mult_nonneg_nonneg) simp_all
  then show ?thesis by (simp add: trendComponent_def lit_Fin Let_def)
qed

lemma trend_weight_pos: "0 < fl (fl (25 / 100) * fl (6 / 10))"
  by (intro fl_pos mult_pos_pos) simp_all

lemma stateComponent_valid:
  assumes ne: "games \<noteq> []" and known: "\<forall>g\<in>set games. state2 g \<in> set states"
  shows "\<exists>k' b'. stateComponent (getStateDominance games) (Fin k, Fin b) = (Fin k', Fin b') \<and>
           fl k \<le> k' \<and> fl b \<le> b' \<and> fl k' = k' \<and> fl b' = b'"
proof -
  let ?w = "getRecentGames maxMemoryWindow games"
  let ?n = "\<lambda>A. length (filter (\<lambda>g. state2 g = A) ?w)"
  let ?sd = "getStateDominance games"
  have sd: "?sd = [(LOW, Count (?n LOW)), (MID, Count (?n MID)), (HIGH, Count (?n HIGH)),
                   (EXTREME, Count (?n EXTREME))]"
    using getStateDominance_explicit [OF ne known] by (simp add: states_def)
  have w: "?w \<noteq> []" "\<forall>g\<in>set ?w. state2 g \<in> set states"
    using getRecentGames_nonempty [OF ne] known set_getRecentGames [of games] by auto
  define T :: rat where "T = of_nat (?n LOW + ?n MID + ?n HIGH + ?n EXTREME)"
  have T: "0 < T" unfolding T_def using state_counts_positive [OF w] by (simp only: of_nat_0_less_iff)
  have tot: "num (foldl count_add (Count 0) (map snd ?sd)) = Fin T"
    unfolding sd T_def by simp
  have p: "propNum ?sd LOW = Fin (of_nat (?n LOW))" "propNum ?sd MID = Fin (of_nat (?n MID))"
    "propNum ?sd HIGH = Fin (of_nat (?n HIGH))" "propNum ?sd EXTREME = Fin (of_nat (?n EXTREME))"
    unfolding sd by (simp_all add: propNum_def)
  have "0 \<le> fl (of_nat (?n LOW) + of_nat (?n MID))" by (intro fl_nonneg) simp
  from ratio_nonneg [OF this T] obtain r1 where
    r1: "orZero (jdiv (jadd (propNum ?sd LOW) (propNum ?sd MID)) (Fin T)) = Fin r1" "0 \<le> r1"
    unfolding p by auto
  have "0 \<le> fl (of_nat (?n HIGH) + of_nat (?n EXTREME))" by (intro fl_nonneg) simp
  from ratio_nonneg [OF this T] obtain r2 where
    r2: "orZero (jdiv (jadd (propNum ?sd HIGH) (propNum ?sd EXTREME)) (Fin T)) = Fin r2" "0 \<le> r2"
    unfolding p by auto
  from add_term [of "30 / 100" r1 k] r1(2) obtain k' where
    k': "jadd (Fin k) (jmul (lit (30 / 100)) (Fin r1)) = Fin k'" "fl k \<le> k'" "fl k' = k'" by auto
  from add_term [of "30 / 100" r2 b] r2(2) obtain b' where
    b': "jadd (Fin b) (jmul (lit (30 / 100)) (Fin r2)) = Fin b'" "fl b \<le> b'" "fl b' = b'" by auto
  have "stateComponent ?sd (Fin k, Fin b) = (Fin k', Fin b')"
    unfolding stateComponent_def by (simp only: Let_def tot r1(1) r2(1) k'(1) b'(1) prod.case)
  with k' b' show ?thesis by blast
qed

lemma percentOf_nonneg:
  assumes "0 < T"
  shows "\<exists>x. percentOf (Count c) (Count T) = Fin x \<and> 0 \<le> x"
proof -
  have "0 \<le> fl (fl (of_nat c / of_nat T) * 100)"
    by (intro fl_nonneg mult_nonneg_nonneg) simp_all
  then have "0 \<le> \<lfloor>fl (fl (of_nat c / of_nat T) * 100) + 1 / 2\<rfloor>" by simp
  then show ?thesis by (simp add: percentOf_Count [OF assms])
qed

lemma propOrZero_nonneg:
  assumes "map_of p B = None \<or> (\<exists>x. map_of p B = Some (Fin x) \<and> 0 \<le> x)"
  shows "\<exists>r. propOrZero p B = Fin r \<and> 0 \<le> r"
  using assms by (auto simp add: propOrZero_def orZero_def)

lemma transitionComponent_nonneg:
  assumes p: "case transProb of None \<Rightarrow> True
      | Some p \<Rightarrow> \<forall>B. map_of p B = None \<or> (\<exists>x. map_of p B = Some (Fin x) \<and> 0 \<le> x)"
    and kb: "fl k = k" "fl b = b"
  shows "\<exists>k' b'. transitionComponent transProb (Fin k, Fin b) = (Fin k', Fin b') \<and>
           k \<le> k' \<and> b \<le> b' \<and> fl k' = k' \<and> fl b' = b'"
proof (cases transProb)
  case None
  with kb show ?thesis by (simp add: transitionComponent_def)
next
  case (Some pr)
  with p have q: "\<And>B. map_of pr B = None \<or> (\<exists>x. map_of pr B = Some (Fin x) \<and> 0 \<le> x)" by simp
  from propOrZero_nonneg [OF q] obtain l m h e where
    v: "propOrZero pr LOW = Fin l" "0 \<le> l" "propOrZero pr MID = Fin m" "0 \<le> m"
       "propOrZero pr HIGH = Fin h" "0 \<le> h" "propOrZero pr EXTREME = Fin e" "0 \<le> e"
    by metis
  have "0 \<le> fl (l + m)" using v by (intro fl_nonneg) simp
  from ratio_nonneg [OF this, of 100] obtain r1 where
    r1: "orZero (jdiv (jadd (propOrZero pr LOW) (propOrZero pr MID)) (Fin 100)) = Fin r1" "0 \<le> r1"
    unfolding v by auto
  have "0 \<le> fl (h + e)" using v by (intro fl_nonneg) simp
  from ratio_nonneg [OF this, of 100] obtain r2 where
    r2: "orZero (jdiv (jadd (propOrZero pr HIGH) (propOrZero pr EXTREME)) (Fin 100)) = Fin r2" "0 \<le> r2"
    unfolding v by auto
  from add_term [of "25 / 100" r1 k] r1(2) obtain k' where
    k': "jadd (Fin k) (jmul (lit (25 / 100)) (Fin r1)) = Fin k'" "fl k \<le> k'" "fl k' = k'" by auto
  from add_term [of "25 / 100" r2 b] r2(2) obtain b' where
    b': "jadd (Fin b) (jmul (lit (25 / 100)) (Fin r2)) = Fin b'" "fl b \<le> b'" "fl b' = b'" by auto
  have "transitionComponent transProb (Fin k, Fin b) = (Fin k', Fin b')"
    unfolding transitionComponent_def Some
    by (simp only: Let_def r1(1) r2(1) k'(1) b'(1) prod.case option.case)
  with k' b' kb show ?thesis by auto
qed

lemma sum_roll2_bounds:
  "\<forall>g\<in>set games. 6 \<le> roll2 g \<and> roll2 g \<le> 54 \<Longrightarrow>
   6 * int (length games) \<le> sum_list (map roll2 games) \<and>
   sum_list (map roll2 games) \<le> 54 * int (length games)"
  by (induction games) auto

lemma averageRoll2_bounds:
  assumes ne: "games \<noteq> []" and r: "\<forall>g\<in>set games. 6 \<le> roll2 g \<and> roll2 g \<le> 54"
  shows "\<exists>a. averageRoll2 games = Fin a \<and> 6 \<le> a \<and> a \<le> 54"
proof -
  define S where "S = sum_list (map roll2 games)"
  define n :: rat where "n = of_nat (length games)"
  have n: "0 < n" using ne by (simp add: n_def)
  from sum_roll2_bounds [OF r] have "of_int (6 * int (length games)) \<le> (of_int S :: rat)"
    "(of_int S :: rat) \<le> of_int (54 * int (length games))"
    unfolding S_def by (simp_all only: of_int_le_iff)
  then have "6 * n \<le> of_int S" "of_int S \<le> 54 * n" by (simp_all add: n_def)
  with n have q: "of_int 6 \<le> (of_int S :: rat) / n" "(of_int S :: rat) / n \<le> of_int 54"
    by (simp_all add: pos_le_divide_eq pos_divide_le_eq)
  have "of_int 6 \<le> fl (of_int S / n)" by (rule fl_ge_repr [OF q(1)]) simp
  moreover have "fl (of_int S / n) \<le> of_int 54" by (rule fl_le_repr [OF q(2)]) simp
  moreover have "averageRoll2 games = Fin (fl (of_int S / n))"
    using n by (simp add: averageRoll2_whole S_def n_def)
  ultimately show ?thesis by simp
qed

lemma center_factor:
  assumes a: "6 \<le> a" "a \<le> 54"
  shows "\<exists>f. jsub (Fin 1) (jdiv (jabs (jsub (Fin a) (Fin 30))) (Fin 24)) = Fin f \<and> 0 \<le> f"
proof -
  define d where "d = \<bar>fl (a + - 30)\<bar>"
  from fl_ge_repr [of "- 24" "a + - 30"] a have "- 24 \<le> fl (a + - 30)" by simp
  moreover from fl_le_repr [of "a + - 30" 24] a have "fl (a + - 30) \<le> 24" by simp
  ultimately have d: "0 \<le> d" "d \<le> 24" by (simp_all add: d_def abs_le_iff)
  then have "d / 24 \<le> of_int 1" by simp
  then have "fl (d / 24) \<le> of_int 1" by (rule fl_le_repr) simp
  then have "0 \<le> fl (1 + - fl (d / 24))" by (intro fl_nonneg) simp
  then show ?thesis by (simp add: jsub_def d_def)
qed

lemma centerComponent_nonneg:
  assumes a: "6 \<le> a" "a \<le> 54" and kb: "fl k = k" "fl b = b"
  shows "\<exists>k' b'. centerComponent (Fin a) (Fin k, Fin b) = (Fin k', Fin b') \<and>
           k \<le> k' \<and> b \<le> b' \<and> fl k' = k' \<and> fl b' = b'"
proof -
  from center_factor [OF a] obtain f where
    f: "jsub (Fin 1) (jdiv (jabs (jsub (Fin a) (Fin 30))) (Fin 24)) = Fin f" "0 \<le> f" by auto
  from add_term [of "20 / 100" f k] f(2) obtain k' where
    k': "jadd (Fin k) (jmul (lit (20 / 100)) (Fin f)) = Fin k'" "fl k \<le> k'" "fl k' = k'" by auto
  from add_term [of "20 / 100" f b] f(2) obtain b' where
    b': "jadd (Fin b) (jmul (lit (20 / 100)) (Fin f)) = Fin b'" "fl b \<le> b'" "fl b' = b'" by auto
  have "centerComponent (Fin a) (Fin k, Fin b) =
          (if a < 30 then (Fin k', Fin b) else (Fin k, Fin b'))"
    unfolding centerComponent_def
    by (simp only: Let_def f(1) k'(1) b'(1) prod.case jless.simps)
  with k' b' kb show ?thesis by auto
qed

lemma getLastState_valid:
  assumes "validLog games" "games \<noteq> []"
  shows "\<exists>s. getLastState games = Some s \<and> s \<in> set states"
proof -
  from assms(2) have "games ! (length games - 1) \<in> set games" by simp
  with validLog_member [OF assms(1)] assms(2) show ?thesis
    by (simp add: getLastState_def)
qed

lemma transProb_nonneg:
  assumes v: "validLog games" and s: "s \<in> set states"
  shows "\<exists>tp. getStateTransitionProbability games s = Inr tp \<and>
           (case tp of None \<Rightarrow> True
            | Some p \<Rightarrow> \<forall>B. map_of p B = None \<or> (\<exists>x. map_of p B = Some (Fin x) \<and> 0 \<le> x))"
proof (cases "length games < 2")
  case True
  then show ?thesis by (simp add: getStateTransitionProbability_short)
next
  case False
  then have len: "2 \<le> length games" by simp
  note g = getStateTransitionProbability_known [OF len validLog_knownStates [OF v] s]
  show ?thesis
  proof (cases "rowTotal games s = 0")
    case True
    with g show ?thesis by simp
  next
    case F: False
    then have T: "0 < rowTotal games s" by simp
    let ?p = "map (\<lambda>B. (B, percentOf (Count (transitionCount games s B))
                             (Count (rowTotal games s)))) states"
    have "map_of ?p B = None \<or> (\<exists>x. map_of ?p B = Some (Fin x) \<and> 0 \<le> x)" for B
      using percentOf_nonneg [OF T] by (cases B) (simp_all add: states_def)
    with g F show ?thesis by simp
  qed
qed

lemma predictionInputs_valid:
  assumes v: "validLog games" and ne: "games \<noteq> []"
  shows "\<exists>t s tp. predictionInputs games
             = Inr (t, getStateDominance games, s, tp, averageRoll2 games) \<and>
           (case tp of None \<Rightarrow> True
            | Some p \<Rightarrow> \<forall>B. map_of p B = None \<or> (\<exists>x. map_of p B = Some (Fin x) \<and> 0 \<le> x))"
proof -
  from ne obtain t where t: "analyzeTrendDirection games = Some t"
    by (simp add: analyzeTrendDirection_def)
  from getLastState_valid [OF v ne] obtain s where
    s: "getLastState games = Some s" "s \<in> set states" by blast
  from transProb_nonneg [OF v s(2)] obtain tp where
    tp: "getStateTransitionProbability games s = Inr tp"
      "case tp of None \<Rightarrow> True
       | Some p \<Rightarrow> \<forall>B. map_of p B = None \<or> (\<exists>x. map_of p B = Some (Fin x) \<and> 0 \<le> x)"
    by blast
  have "predictionInputs games = Inr (t, getStateDominance games, s, tp, averageRoll2 games)"
    by (simp add: predictionInputs_def t s(1) tp(1))
  with tp(2) show ?thesis by blast
qed

lemma hybridScores_valid:
  assumes v: "validLog games" and ne: "games \<noteq> []"
    and tp: "case tp of None \<Rightarrow> True
      | Some p \<Rightarrow> \<forall>B. map_of p B = None \<or> (\<exists>x. map_of p B = Some (Fin x) \<and> 0 \<le> x)"
  shows "\<exists>k b. hybridScores t (getStateDominance games) tp (averageRoll2 games) = (Fin k, Fin b) \<and>
           0 \<le> k \<and> 0 \<le> b \<and> fl k = k \<and> fl b = b \<and>
           (fl (fl (25 / 100) * fl (6 / 10)) \<le> k \<or> fl (fl (25 / 100) * fl (6 / 10)) \<le> b)"
proof -
  let ?w = "fl (fl (25 / 100) * fl (6 / 10))"
  from trendComponent_start [of t] obtain k1 b1 where
    c1: "trendComponent t (Fin 0, Fin 0) = (Fin k1, Fin b1)" "0 \<le> k1" "0 \<le> b1"
      "fl k1 = k1" "fl b1 = b1" "?w \<le> k1 \<or> ?w \<le> b1" by blast
  have known: "\<forall>g\<in>set games. state2 g \<in> set states"
    using validLog_member [OF v] by blast
  from stateComponent_valid [OF ne known, of k1 b1] obtain k2 b2 where
    c2: "stateComponent (getStateDominance games) (Fin k1, Fin b1) = (Fin k2, Fin b2)"
      "fl k1 \<le> k2" "fl b1 \<le> b2" "fl k2 = k2" "fl b2 = b2" by blast
  from transitionComponent_nonneg [OF tp c2(4,5)] obtain k3 b3 where
    c3: "transitionComponent tp (Fin k2, Fin b2) = (Fin k3, Fin b3)"
      "k2 \<le> k3" "b2 \<le> b3" "fl k3 = k3" "fl b3 = b3" by blast
  have r: "\<forall>g\<in>set games. 6 \<le> roll2 g \<and> roll2 g \<le> 54"
    using validLog_member [OF v] by blast
  from averageRoll2_bounds [OF ne r] obtain a where
    a: "averageRoll2 games = Fin a" "6 \<le> a" "a \<le> 54" by blast
  from centerComponent_nonneg [OF a(2,3) c3(4,5)] obtain k4 b4 where
    c4: "centerComponent (Fin a) (Fin k3, Fin b3) = (Fin k4, Fin b4)"
      "k3 \<le> k4" "b3 \<le> b4" "fl k4 = k4" "fl b4 = b4" by blast
  have "hybridScores t (getStateDominance games) tp (averageRoll2 games) = (Fin k4, Fin b4)"
    by (simp only: hybridScores_def c1(1) c2(1) c3(1) a(1) c4(1))
  moreover from c1 c2 c3 c4 have "k1 \<le> k4" "b1 \<le> b4" by simp_all
  ultimately show ?thesis using c1 c4 by (intro exI [of _ k4] exI [of _ b4]) auto
qed

lemma total_positive:
  assumes "0 \<le> k" "0 \<le> b"
    and "fl (fl (25 / 100) * fl (6 / 10)) \<le> k \<or> fl (fl (25 / 100) * fl (6 / 10)) \<le> b"
  shows "0 < fl (k + b)"
proof -
  from assms have "0 < k + b" using trend_weight_pos by linarith
  then show ?thesis by (rule fl_pos)
qed

lemma totalScore_valid:
  assumes v: "validLog games" and ne: "games \<noteq> []"
  shows "\<exists>t s tp k b. predictionInputs games
             = Inr (t, getStateDominance games, s, tp, averageRoll2 games) \<and>
           hybridScores t (getStateDominance games) tp (averageRoll2 games) = (Fin k, Fin b) \<and>
           0 \<le> k \<and> 0 \<le> b \<and> fl k = k \<and> fl b = b \<and>
           totalScore games = Inr (Fin (fl (k + b))) \<and> 0 < fl (k + b)"
proof -
  from predictionInputs_valid [OF v ne] obtain t s tp where
    p: "predictionInputs games = Inr (t, getStateDominance games, s, tp, averageRoll2 games)"
      "case tp of None \<Rightarrow> True
       | Some p \<Rightarrow> \<forall>B. map_of p B = None \<or> (\<exists>x. map_of p B = Some (Fin x) \<and> 0 \<le> x)"
    by blast
  from hybridScores_valid [OF v ne p(2), of t] obtain k b where
    h: "hybridScores t (getStateDominance games) tp (averageRoll2 games) = (Fin k, Fin b)"
      "0 \<le> k" "0 \<le> b" "fl k = k" "fl b = b"
      "fl (fl (25 / 100) * fl (6 / 10)) \<le> k \<or> fl (fl (25 / 100) * fl (6 / 10)) \<le> b"
    by blast
  have "totalScore games = Inr (Fin (fl (k + b)))"
    by (simp add: totalScore_def p(1) h(1))
  with p(1) h total_positive [OF h(2,3,6)] show ?thesis by blast
qed



text \<open>
  C2: on a valid log (every round built from two rolls in \<open>[6,54]\<close>) of at least 5
  rounds, nothing throws before the scoring, both scores are finite and not negative,
  and the divisor \<open>totalScore = kecilScore + besarScore\<close> is a finite number strictly
  above 0: the division by zero is unreachable.
\<close>

theorem totalScore_positive:
  assumes "validLog games" and "5 \<le> length games"
  shows "\<exists>t s tp k b T.
           predictionInputs games
             = Inr (t, getStateDominance games, s, tp, averageRoll2 games) \<and>
           hybridScores t (getStateDominance games) tp (averageRoll2 games) = (Fin k, Fin b) \<and>
           0 \<le> k \<and> 0 \<le> b \<and>
           totalScore games = Inr (Fin T) \<and> T = fl (k + b) \<and> 0 < T"
proof -
  from assms(2) have "games \<noteq> []" by auto
  from totalScore_valid [OF assms(1) this] show ?thesis by blast
qed

theorem totalScore_positive_witness:
  "validLog fiveLog \<and> 5 \<le> length fiveLog \<and>
   (\<exists>T. totalScore fiveLog = Inr (Fin T) \<and> 0 < T) \<and>
   totalScore fiveLog = Inr (Fin (7370891390129711 / 9007199254740992))"
proof -
  have v: "validLog fiveLog" by code_simp
  have l: "5 \<le> length fiveLog" by (simp add: fiveLog_def)
  have e: "totalScore fiveLog = Inr (Fin (7370891390129711 / 9007199254740992))" by code_simp
  from totalScore_positive [OF v l] have "\<exists>T. totalScore fiveLog = Inr (Fin T) \<and> 0 < T"
    by blast
  with v l e show ?thesis by blast
qed






end
